theory Spec2Isabelle
  imports Complex_Main "HOL-Library.Multiset"
begin

section \<open>CIFAR-10 ResNet9 notebook: data model\<close>

text \<open>
  The notebook is a sequence of cells over module-level variables. Each cell is modelled
  as a function on the values it reads and writes. Tensors are lists of reals; a batch of
  activations is a list with one row per sample. Exceptions of the Python code are values
  of \<open>py_error\<close>.
\<close>

datatype py_error = IndexError | ValueError | ZeroDivisionError | RuntimeError

type_synonym tensor = "real list list"

text \<open>\<^verbatim>\<open>batch_size = 100\<close> and the ten class names (cell 5).\<close>

definition batch_size :: nat where
  "batch_size = 100"

definition classes :: "string list" where
  "classes = [''plane'', ''car'', ''bird'', ''cat'', ''deer'', ''dog'', ''frog'', ''horse'',
              ''ship'', ''truck'']"

section \<open>Data preparation (cells 6 and 7)\<close>

text \<open>
  A raw CIFAR-10 image is a rectangular array of pixels, rows first, each pixel a triple
  of bytes (red, green, blue); the dataset's \<open>data\<close> attribute is the array of all
  images. The right-hand sides of cell 6,
  \<^verbatim>\<open>
  mean_trainset = mean_std_set.data.mean(axis=(0,1,2))/255
  std_trainset = mean_std_set.data.std(axis=(0,1,2))/255
  \<close>
  average over images, rows and columns, leaving one number per channel; numpy's
  \<open>std\<close> is the population standard deviation.
\<close>

type_synonym pixel = "nat \<times> nat \<times> nat"

type_synonym image = "pixel list list"

fun channel :: "nat \<Rightarrow> pixel \<Rightarrow> nat" where
  "channel ch (r, g, b) = (if ch = 0 then r else if ch = 1 then g else b)"

definition channel_values :: "image list \<Rightarrow> nat \<Rightarrow> real list" where
  "channel_values data ch = map (\<lambda>px. real (channel ch px)) (concat (concat data))"

definition np_mean :: "real list \<Rightarrow> real" where
  "np_mean xs = sum_list xs / real (length xs)"

definition np_std :: "real list \<Rightarrow> real" where
  "np_std xs = sqrt (np_mean (map (\<lambda>x. (x - np_mean xs)\<^sup>2) xs))"

definition data_mean :: "image list \<Rightarrow> real list" where
  "data_mean data = map (\<lambda>ch. np_mean (channel_values data ch) / 255) [0..<3]"

definition data_std :: "image list \<Rightarrow> real list" where
  "data_std data = map (\<lambda>ch. np_std (channel_values data ch) / 255) [0..<3]"

text \<open>
  \<open>RandomCrop(32, padding=4, padding_mode='reflect')\<close> first pads the image on every
  border by reflection: the padded array continues the rows, and then the columns,
  periodically, mirrored at the first and the last entry without repeating them; an
  axis with one entry is continued with that entry, an empty axis cannot be padded. The
  position \<open>k\<close> of the padded axis, counted from the first original entry (so \<open>k\<close> is
  negative in the leading border), reads the original entry \<open>reflect_index n k\<close>.
\<close>

definition reflect_index :: "nat \<Rightarrow> int \<Rightarrow> nat" where
  "reflect_index n k =
     (if n \<le> 1 then 0
      else let period = 2 * (int n - 1);
               m = k mod period
           in nat (if m < int n then m else period - m))"

definition reflect_pad :: "nat \<Rightarrow> 'a list \<Rightarrow> 'a list" where
  "reflect_pad p xs =
     (if xs = [] then []
      else map (\<lambda>k. xs ! reflect_index (length xs) (int k - int p)) [0..<length xs + 2 * p])"

definition pad_reflect :: "nat \<Rightarrow> image \<Rightarrow> py_error + image" where
  "pad_reflect p img =
     (if img = [] \<or> [] \<in> set img then Inl ValueError
      else Inr (reflect_pad p (map (reflect_pad p) img)))"

text \<open>
  The crop then needs a padded image at least as large as the window and raises
  otherwise; a padded image of exactly the window's size is returned whole, and in every
  other case the offsets are drawn uniformly from the positions that fit. The draw is an
  argument, a pair of naturals reduced modulo the number of positions.
  \<open>RandomHorizontalFlip()\<close> mirrors the columns when its draw, a boolean here, falls
  below one half.
\<close>

definition crop :: "image \<Rightarrow> nat \<Rightarrow> nat \<Rightarrow> nat \<Rightarrow> nat \<Rightarrow> image" where
  "crop img i j th tw = map (\<lambda>row. take tw (drop j row)) (take th (drop i img))"

definition RandomCrop :: "nat \<Rightarrow> nat \<Rightarrow> nat \<times> nat \<Rightarrow> image \<Rightarrow> py_error + image" where
  "RandomCrop sz padding draw img =
     (case pad_reflect padding img of
        Inl e \<Rightarrow> Inl e
      | Inr padded \<Rightarrow>
          let h = length padded;
              w = length (hd padded)
          in if h < sz \<or> w < sz then Inl ValueError
             else if w = sz \<and> h = sz then Inr (crop padded 0 0 h w)
             else Inr (crop padded (fst draw mod (h - sz + 1)) (snd draw mod (w - sz + 1))
                         sz sz))"

definition hflip :: "image \<Rightarrow> image" where
  "hflip img = map rev img"

definition RandomHorizontalFlip :: "bool \<Rightarrow> image \<Rightarrow> image" where
  "RandomHorizontalFlip draw img = (if draw then hflip img else img)"

text \<open>
  \<open>ToTensor()\<close> turns the bytes into reals in [0, 1], channels first.
  \<open>Normalize(mean, std)\<close> raises when a deviation is zero; otherwise it subtracts the
  channel's mean and divides by its deviation, a one-element vector standing for every
  channel and a vector of any other wrong length raising.
\<close>

definition ToTensor :: "image \<Rightarrow> real list list list" where
  "ToTensor img = map (\<lambda>ch. map (map (\<lambda>px. real (channel ch px) / 255)) img) [0..<3]"

definition stat_at :: "real list \<Rightarrow> nat \<Rightarrow> real" where
  "stat_at v ch = (if length v = 1 then v ! 0 else v ! ch)"

definition Normalize ::
    "real list \<Rightarrow> real list \<Rightarrow> real list list list \<Rightarrow> py_error + real list list list" where
  "Normalize mean std t =
     (if 0 \<in> set std then Inl ValueError
      else if (length mean = 1 \<or> length mean = length t)
              \<and> (length std = 1 \<or> length std = length t)
      then Inr (map (\<lambda>(ch, plane). map (map (\<lambda>v. (v - stat_at mean ch) / stat_at std ch)) plane)
                  (zip [0..<length t] t))
      else Inl RuntimeError)"

definition train_transform ::
    "real list \<Rightarrow> real list \<Rightarrow> nat \<times> nat \<Rightarrow> bool \<Rightarrow> image \<Rightarrow> py_error + real list list list" where
  "train_transform mean std cdraw fdraw img =
     (case RandomCrop 32 4 cdraw img of
        Inl e \<Rightarrow> Inl e
      | Inr cropped \<Rightarrow> Normalize mean std (ToTensor (RandomHorizontalFlip fdraw cropped)))"

definition test_transform ::
    "real list \<Rightarrow> real list \<Rightarrow> image \<Rightarrow> py_error + real list list list" where
  "test_transform mean std img = Normalize mean std (ToTensor img)"

text \<open>
  The random draws of one pass over a loader: the shuffle, the crop offsets and the flip
  of each sample position, and for each batch the keep/drop decisions of the four
  dropout layers (layer, sample, component).
\<close>

record pass_rng =
  perm_draw :: "nat \<Rightarrow> nat"
  crop_draw :: "nat \<Rightarrow> nat \<times> nat"
  flip_draw :: "nat \<Rightarrow> bool"
  keep_draw :: "nat \<Rightarrow> nat \<Rightarrow> nat \<Rightarrow> nat \<Rightarrow> bool"

text \<open>
  \<open>DataLoader(dataset, batch_size, shuffle)\<close>. With \<open>shuffle=True\<close> the sample order
  of each pass is a fresh random permutation, here drawn position by position from the
  samples that remain. The loader cuts the order into consecutive groups of
  \<open>batch_size\<close> and keeps the shorter last group (\<open>drop_last\<close> is off). A batch is
  fetched when the loop asks for it: the transform runs on its samples in order, the
  first sample whose transform raises makes the fetch raise, and otherwise the batch is
  the pair of the stacked images, one flattened row per sample, and their labels.
\<close>

primrec permute :: "nat \<Rightarrow> (nat \<Rightarrow> nat) \<Rightarrow> 'a list \<Rightarrow> 'a list" where
  "permute 0 g xs = []"
| "permute (Suc n) g xs =
     (let i = g n mod length xs
      in xs ! i # permute n g (take i xs @ drop (Suc i) xs))"

definition shuffled :: "(nat \<Rightarrow> nat) \<Rightarrow> 'a list \<Rightarrow> 'a list" where
  "shuffled g xs = permute (length xs) g xs"

definition len_loader :: "nat \<Rightarrow> nat \<Rightarrow> nat" where
  "len_loader n bs = (n + bs - 1) div bs"

definition batches :: "nat \<Rightarrow> 'a list \<Rightarrow> 'a list list" where
  "batches bs xs = map (\<lambda>k. take bs (drop (k * bs) xs)) [0..<len_loader (length xs) bs]"

type_synonym batch = "tensor \<times> nat list"

fun collate :: "((py_error + real list list list) \<times> nat) list \<Rightarrow> py_error + batch" where
  "collate [] = Inr ([], [])"
| "collate ((Inl e, label) # rest) = Inl e"
| "collate ((Inr t, label) # rest) =
     (case collate rest of
        Inl e \<Rightarrow> Inl e
      | Inr b \<Rightarrow> Inr (concat (concat t) # fst b, label # snd b))"

definition train_pipeline ::
    "real list \<Rightarrow> real list \<Rightarrow> (image \<times> nat) list \<Rightarrow> pass_rng \<Rightarrow> (py_error + batch) list" where
  "train_pipeline mean std trainset rng =
     map collate (batches batch_size
       (map (\<lambda>(k, (img, label)).
               (train_transform mean std (crop_draw rng k) (flip_draw rng k) img, label))
          (zip [0..<length trainset] (shuffled (perm_draw rng) trainset))))"

definition test_pipeline ::
    "real list \<Rightarrow> real list \<Rightarrow> (image \<times> nat) list \<Rightarrow> (py_error + batch) list" where
  "test_pipeline mean std testset =
     map collate (batches batch_size
       (map (\<lambda>(img, label). (test_transform mean std img, label)) testset))"

section \<open>The model (cell 8)\<close>

text \<open>
  A module object carries the flag \<open>training\<close>, which a freshly constructed module has
  set and which only \<open>train()\<close> and \<open>eval()\<close> change, its parameters, the buffers of
  its batch-norm layers (running statistics) and the gradient slot of the parameters
  (\<open>None\<close> until a backward pass fills it).
\<close>

record module =
  training :: bool
  parameters :: "real list"
  buffers :: "real list"
  grad :: "real list option"

text \<open>
  The numerical kernels of the framework are parameters of the model: convolution and
  linear layers read the parameters, batch normalisation also reads the mode and reads
  and writes the buffers, pooling reads only its input. \<open>autograd\<close> is the gradient of
  the loss \<open>criterion(model(inputs), labels)\<close> in the parameters, for the forward
  pass that was run on the given module and dropout draws.
\<close>

record kernels =
  Conv2d :: "nat \<Rightarrow> real list \<Rightarrow> tensor \<Rightarrow> tensor"
  BatchNorm2d :: "nat \<Rightarrow> bool \<Rightarrow> real list \<Rightarrow> real list \<Rightarrow> tensor \<Rightarrow> tensor \<times> real list"
  MaxPool2d :: "nat \<Rightarrow> tensor \<Rightarrow> tensor"
  Linear :: "nat \<Rightarrow> real list \<Rightarrow> tensor \<Rightarrow> tensor"
  autograd :: "module \<Rightarrow> (nat \<Rightarrow> nat \<Rightarrow> nat \<Rightarrow> bool) \<Rightarrow> tensor \<Rightarrow> nat list \<Rightarrow> real list"

definition ReLU :: "tensor \<Rightarrow> tensor" where
  "ReLU x = map (map (max 0)) x"

definition Flatten :: "tensor \<Rightarrow> tensor" where
  "Flatten x = x"

text \<open>
  \<open>nn.Dropout(p)\<close>: in training mode each component is kept with probability
  \<open>1 - p\<close> and scaled by \<open>1 / (1 - p)\<close>, or set to zero; outside training mode the
  layer returns its input.
\<close>

definition Dropout :: "real \<Rightarrow> bool \<Rightarrow> (nat \<Rightarrow> nat \<Rightarrow> bool) \<Rightarrow> tensor \<Rightarrow> tensor" where
  "Dropout p train keep x =
     (if train
      then map (\<lambda>(i, row). map (\<lambda>(j, v). if keep i j then v / (1 - p) else 0)
                              (zip [0..<length row] row))
             (zip [0..<length x] x)
      else x)"

text \<open>
  \<open>self.res1(out) + out\<close>: the two operands have the shape of the block's input (the
  summary cell prints 128 x 16 x 16 and 512 x 4 x 4), so the sum is componentwise.
\<close>

definition tensor_add :: "tensor \<Rightarrow> tensor \<Rightarrow> tensor" where
  "tensor_add a b = map2 (map2 (+)) a b"

text \<open>
  \<open>conv_block\<close>: convolution, batch normalisation, ReLU and, when \<open>pool\<close> is set,
  \<open>MaxPool2d(2)\<close>. The blocks are numbered in the order \<open>__init__\<close> creates them. The
  activations travel with the buffers, which every batch-norm layer may rewrite.
\<close>

definition conv_block ::
    "kernels \<Rightarrow> module \<Rightarrow> nat \<Rightarrow> bool \<Rightarrow> tensor \<times> real list \<Rightarrow> tensor \<times> real list" where
  "conv_block K m idx pool s =
     (let y = Conv2d K idx (parameters m) (fst s);
          zb = BatchNorm2d K idx (training m) (parameters m) (snd s) y;
          r = ReLU (fst zb)
      in (if pool then MaxPool2d K 2 r else r, snd zb))"

definition classifier ::
    "kernels \<Rightarrow> module \<Rightarrow> (nat \<Rightarrow> nat \<Rightarrow> nat \<Rightarrow> bool) \<Rightarrow> tensor \<Rightarrow> tensor" where
  "classifier K m keep x =
     Linear K 2 (parameters m)
       (Dropout 0.5 (training m) (keep 3)
         (ReLU (Linear K 1 (parameters m)
           (ReLU (Linear K 0 (parameters m)
             (Flatten (MaxPool2d K 4 (Dropout 0.5 (training m) (keep 2) x))))))))"

definition forward ::
    "kernels \<Rightarrow> module \<Rightarrow> (nat \<Rightarrow> nat \<Rightarrow> nat \<Rightarrow> bool) \<Rightarrow> tensor \<Rightarrow> tensor \<times> real list" where
  "forward K m keep xb =
     (let c1 = conv_block K m 0 False (xb, buffers m);
          c2 = conv_block K m 1 True c1;
          r1 = conv_block K m 3 False (conv_block K m 2 False c2);
          s1 = (tensor_add (Dropout 0.3 (training m) (keep 0) (fst r1)) (fst c2), snd r1);
          c3 = conv_block K m 4 True s1;
          c4 = conv_block K m 5 True c3;
          r2 = conv_block K m 7 False (conv_block K m 6 False c4);
          s2 = tensor_add (Dropout 0.3 (training m) (keep 1) (fst r2)) (fst c4)
      in (classifier K m keep s2, snd r2))"

text \<open>\<^verbatim>\<open>model = ResNet9(3, 10).to(device)\<close>: the initial values come from the framework.\<close>

definition ResNet9 :: "real list \<Rightarrow> real list \<Rightarrow> module" where
  "ResNet9 params bufs = \<lparr>training = True, parameters = params, buffers = bufs, grad = None\<rparr>"

text \<open>
  Calling the model runs \<open>forward\<close> and leaves the rewritten buffers in the module.
\<close>

definition call_model ::
    "kernels \<Rightarrow> module \<Rightarrow> (nat \<Rightarrow> nat \<Rightarrow> nat \<Rightarrow> bool) \<Rightarrow> tensor \<Rightarrow> tensor \<times> module" where
  "call_model K m keep xb =
     (let ob = forward K m keep xb in (fst ob, m\<lparr>buffers := snd ob\<rparr>))"

section \<open>Hyperparameters, optimizer and scheduler (cells 10 and 11)\<close>

definition num_epochs :: nat where
  "num_epochs = 40"

definition grad_clip :: real where
  "grad_clip = 0.1"

record optimizer =
  lr :: real
  momentum :: real
  weight_decay :: real
  momentum_buffer :: "real list option"

definition SGD :: optimizer where
  "SGD = \<lparr>lr = 0.01, momentum = 0.9, weight_decay = 0.0005, momentum_buffer = None\<rparr>"

text \<open>
  Modelled from the spec: the scheduler class is framework code and is not among the
  notebook's sources. The spec's single-cycle schedule (start near a low floor, smooth
  rise to the peak 0.1 within roughly the first third of the steps, smooth decay towards
  0, one step per batch) is taken in the form the framework documents for
  \<open>OneCycleLR(optimizer, max_lr=0.1, steps_per_epoch=len(trainloader), epochs=num_epochs)\<close>
  with default arguments: cosine annealing in two phases, the first ending at step
  \<open>0.3 * total_steps - 1\<close>, the second at \<open>total_steps - 1\<close>; the learning rate starts at
  \<open>max_lr / 25\<close> and ends at that value over \<open>10000\<close>; the optimizer's momentum is cycled
  the other way between 0.95 and 0.85. The scheduler takes its first step when it is
  constructed, which sets the step counter to zero and overwrites the optimizer's
  learning rate and momentum; a step beyond \<open>total_steps\<close> raises. These values
  reproduce the learning rates that the training cell printed (0.00564 after epoch 1,
  0.10000 after epoch 12, 0.00000 after epoch 40).
\<close>

definition max_lr :: real where "max_lr = 0.1"
definition initial_lr :: real where "initial_lr = max_lr / 25"
definition min_lr :: real where "min_lr = initial_lr / 10000"
definition base_momentum :: real where "base_momentum = 0.85"
definition max_momentum :: real where "max_momentum = 0.95"

definition annealing_cos :: "real \<Rightarrow> real \<Rightarrow> real \<Rightarrow> real" where
  "annealing_cos start finish pct = finish + (start - finish) / 2 * (cos (pi * pct) + 1)"

definition get_lr :: "nat \<Rightarrow> nat \<Rightarrow> real \<times> real" where
  "get_lr tsteps step_num =
     (let end1 = 0.3 * real tsteps - 1;
          end2 = real tsteps - 1
      in if real step_num \<le> end1
         then (let pct = real step_num / end1
               in (annealing_cos initial_lr max_lr pct,
                   annealing_cos max_momentum base_momentum pct))
         else (let pct = (real step_num - end1) / (end2 - end1)
               in (annealing_cos max_lr min_lr pct,
                   annealing_cos base_momentum max_momentum pct)))"

record scheduler =
  last_epoch :: nat
  total_steps :: nat

definition set_rates :: "nat \<Rightarrow> nat \<Rightarrow> optimizer \<Rightarrow> optimizer" where
  "set_rates tsteps step_num opt =
     opt\<lparr>lr := fst (get_lr tsteps step_num), momentum := snd (get_lr tsteps step_num)\<rparr>"

definition OneCycleLR ::
    "optimizer \<Rightarrow> nat \<Rightarrow> nat \<Rightarrow> py_error + (scheduler \<times> optimizer)" where
  "OneCycleLR opt steps_per_epoch epochs =
     (let tsteps = epochs * steps_per_epoch
      in if tsteps = 0 then Inl ValueError
         else Inr (\<lparr>last_epoch = 0, total_steps = tsteps\<rparr>, set_rates tsteps 0 opt))"

definition scheduler_step ::
    "scheduler \<Rightarrow> optimizer \<Rightarrow> py_error + (scheduler \<times> optimizer)" where
  "scheduler_step sch opt =
     (let step_num = last_epoch sch + 1
      in if total_steps sch < step_num then Inl ValueError
         else Inr (sch\<lparr>last_epoch := step_num\<rparr>, set_rates (total_steps sch) step_num opt))"

text \<open>
  The learning rate of the notebook's run as a function of the step: 40 epochs over the
  batches of the 50,000 training images.
\<close>

definition schedule :: "nat \<Rightarrow> real" where
  "schedule step_num = fst (get_lr (num_epochs * len_loader 50000 batch_size) step_num)"

section \<open>Training loop (cell 12)\<close>

text \<open>
  \<open>optimizer.zero_grad()\<close> empties the gradient slot; \<open>loss.backward()\<close> adds the new
  gradient to what the slot holds; \<open>clip_grad_value_\<close> clamps every component of the
  gradient in place.
\<close>

definition zero_grad :: "module \<Rightarrow> module" where
  "zero_grad m = m\<lparr>grad := None\<rparr>"

definition backward :: "real list \<Rightarrow> module \<Rightarrow> module" where
  "backward g m =
     m\<lparr>grad := Some (case grad m of None \<Rightarrow> g | Some old \<Rightarrow> map2 (+) old g)\<rparr>"

definition clamp :: "real \<Rightarrow> real \<Rightarrow> real \<Rightarrow> real" where
  "clamp lo hi v = min (max v lo) hi"

definition clip_grad_value :: "module \<Rightarrow> real \<Rightarrow> module" where
  "clip_grad_value m clip_value =
     m\<lparr>grad := map_option (map (clamp (- clip_value) clip_value)) (grad m)\<rparr>"

text \<open>
  \<open>optimizer.step()\<close> of SGD with weight decay and momentum (no dampening, no Nesterov):
  a parameter without gradient is skipped; the first step stores the decayed gradient as
  the momentum buffer.
\<close>

definition SGD_step :: "optimizer \<Rightarrow> module \<Rightarrow> module \<times> optimizer" where
  "SGD_step opt m =
     (case grad m of
        None \<Rightarrow> (m, opt)
      | Some g \<Rightarrow>
          let d = (if weight_decay opt \<noteq> 0
                   then map2 (\<lambda>gi p. gi + weight_decay opt * p) g (parameters m) else g)
          in if momentum opt \<noteq> 0
             then (let buf = (case momentum_buffer opt of
                                None \<Rightarrow> d
                              | Some b \<Rightarrow> map2 (\<lambda>bi di. momentum opt * bi + di) b d)
                   in (m\<lparr>parameters := map2 (\<lambda>p bi. p - lr opt * bi) (parameters m) buf\<rparr>,
                       opt\<lparr>momentum_buffer := Some buf\<rparr>))
             else (m\<lparr>parameters := map2 (\<lambda>p di. p - lr opt * di) (parameters m) d\<rparr>, opt))"

text \<open>
  One iteration of the inner loop, up to the point where \<open>optimizer.step()\<close> is called:
  forward pass, \<open>zero_grad\<close>, backward pass and, as \<open>grad_clip\<close> is truthy, clipping.
  The printed lines and \<open>running_loss\<close>, which feed no later computation, are left out.
  The notebook's variables are the fields of a state: the two statistics of cell 6,
  which the \<open>Normalize\<close> transforms of both loaders refer to, the model, the optimizer
  and the scheduler. An iteration writes the last three.
\<close>

record nb_state =
  mean_trainset :: "real list"
  std_trainset :: "real list"
  model :: module
  optim :: optimizer
  sched :: scheduler

definition before_update ::
    "kernels \<Rightarrow> module \<Rightarrow> (nat \<Rightarrow> nat \<Rightarrow> nat \<Rightarrow> bool) \<Rightarrow> batch \<Rightarrow> module" where
  "before_update K m keep data =
     (let inputs = fst data;
          labels = snd data;
          m1 = snd (call_model K m keep inputs);
          m2 = zero_grad m1;
          m3 = backward (autograd K m keep inputs labels) m2
      in if grad_clip \<noteq> 0 then clip_grad_value m3 grad_clip else m3)"

definition train_step ::
    "kernels \<Rightarrow> nb_state \<Rightarrow> (nat \<Rightarrow> nat \<Rightarrow> nat \<Rightarrow> bool) \<Rightarrow> batch \<Rightarrow> py_error + nb_state" where
  "train_step K st keep data =
     (let mo = SGD_step (optim st) (before_update K (model st) keep data)
      in case scheduler_step (sched st) (snd mo) of
           Inl e \<Rightarrow> Inl e
         | Inr so \<Rightarrow> Inr (st\<lparr>model := fst mo, optim := snd so, sched := fst so\<rparr>))"

text \<open>
  The two loaders of cell 7. Their transforms hold the statistics, so a pass over a
  loader normalises with what the two variables hold when the pass is made.
\<close>

definition trainloader :: "nb_state \<Rightarrow> (image \<times> nat) list \<Rightarrow> pass_rng \<Rightarrow> (py_error + batch) list" where
  "trainloader st trainset rng =
     train_pipeline (mean_trainset st) (std_trainset st) trainset rng"

definition testloader :: "nb_state \<Rightarrow> (image \<times> nat) list \<Rightarrow> (py_error + batch) list" where
  "testloader st testset = test_pipeline (mean_trainset st) (std_trainset st) testset"

text \<open>
  The inner loop over the batches of one pass; a fetch that raises ends the run.
\<close>

fun train_batches ::
    "kernels \<Rightarrow> (nat \<Rightarrow> nat \<Rightarrow> nat \<Rightarrow> nat \<Rightarrow> bool) \<Rightarrow> nat \<Rightarrow> (py_error + batch) list \<Rightarrow> nb_state
       \<Rightarrow> py_error + nb_state" where
  "train_batches K kd i [] st = Inr st"
| "train_batches K kd i (Inl e # rest) st = Inl e"
| "train_batches K kd i (Inr data # rest) st =
     (case train_step K st (kd i) data of
        Inl e \<Rightarrow> Inl e
      | Inr st' \<Rightarrow> train_batches K kd (Suc i) rest st')"

text \<open>
  The outer loop: every epoch iterates the train loader anew, with that pass's draws.
\<close>

fun train_epochs ::
    "kernels \<Rightarrow> (image \<times> nat) list \<Rightarrow> (nat \<Rightarrow> pass_rng) \<Rightarrow> nat list \<Rightarrow> nb_state
       \<Rightarrow> py_error + nb_state" where
  "train_epochs K trainset rngs [] st = Inr st"
| "train_epochs K trainset rngs (epoch # rest) st =
     (case train_batches K (keep_draw (rngs epoch)) 0 (trainloader st trainset (rngs epoch)) st of
        Inl e \<Rightarrow> Inl e
      | Inr st' \<Rightarrow> train_epochs K trainset rngs rest st')"

definition train_loop ::
    "kernels \<Rightarrow> (image \<times> nat) list \<Rightarrow> (nat \<Rightarrow> pass_rng) \<Rightarrow> nb_state \<Rightarrow> py_error + nb_state" where
  "train_loop K trainset rngs st = train_epochs K trainset rngs [0..<num_epochs] st"

section \<open>Evaluation cells\<close>

text \<open>
  \<^verbatim>\<open>_, predicted = torch.max(outputs, 1)\<close>: for each row the index of its maximum, the
  first one when the maximum occurs more than once.
\<close>

fun argmax_from :: "real list \<Rightarrow> nat \<Rightarrow> nat \<Rightarrow> real \<Rightarrow> nat" where
  "argmax_from [] i best bv = best"
| "argmax_from (x # xs) i best bv =
     (if bv < x then argmax_from xs (Suc i) i x else argmax_from xs (Suc i) best bv)"

definition argmax :: "real list \<Rightarrow> nat" where
  "argmax row = (case row of [] \<Rightarrow> 0 | x # xs \<Rightarrow> argmax_from xs 1 0 x)"

definition torch_max_1 :: "tensor \<Rightarrow> nat list" where
  "torch_max_1 outputs = map argmax outputs"

text \<open>
  \<^verbatim>\<open>(predicted == labels)\<close>: elementwise comparison of two one-dimensional tensors. Equal
  sizes compare position by position, a size-one operand is broadcast, any other pair of
  sizes raises.
\<close>

definition torch_eq :: "nat list \<Rightarrow> nat list \<Rightarrow> py_error + bool list" where
  "torch_eq predicted labels =
     (if length predicted = length labels then Inr (map2 (=) predicted labels)
      else if length predicted = 1 then Inr (map (\<lambda>l. hd predicted = l) labels)
      else if length labels = 1 then Inr (map (\<lambda>p. p = hd labels) predicted)
      else Inl RuntimeError)"

text \<open>
  The overall accuracy cells (train and test):
  \<^verbatim>\<open>total += labels.size(0); correct += (predicted == labels).sum().item()\<close>.
\<close>

definition count_correct :: "bool list \<Rightarrow> nat" where
  "count_correct c = length (filter id c)"

definition accuracy_batch ::
    "nat list \<Rightarrow> nat list \<Rightarrow> nat \<times> nat \<Rightarrow> py_error + (nat \<times> nat)" where
  "accuracy_batch predicted labels acc =
     (case torch_eq predicted labels of
        Inl e \<Rightarrow> Inl e
      | Inr c \<Rightarrow> Inr (fst acc + count_correct c, snd acc + length labels))"

text \<open>
  The per-class cell. \<^verbatim>\<open>c = (predicted == labels).squeeze()\<close> drops a dimension of size
  one, so a one-sample batch leaves a zero-dimensional tensor that cannot be indexed.
  The inner loop is
  \<^verbatim>\<open>
  for i in range(batch_size):
      label = labels[i]
      class_correct[label] += c[i].item()
      class_total[label] += 1
  \<close>
  with \<open>class_correct\<close> and \<open>class_total\<close> Python lists of ten floats.
\<close>

definition index_c :: "bool list \<Rightarrow> nat \<Rightarrow> py_error + bool" where
  "index_c c i = (if length c = 1 \<or> length c \<le> i then Inl IndexError else Inr (c ! i))"

fun per_class_inner ::
    "nat list \<Rightarrow> bool list \<Rightarrow> nat list \<Rightarrow> real list \<times> real list
       \<Rightarrow> py_error + (real list \<times> real list)" where
  "per_class_inner labels c [] acc = Inr acc"
| "per_class_inner labels c (i # rest) (class_correct, class_total) =
     (if length labels \<le> i then Inl IndexError
      else let label = labels ! i in
        if length class_correct \<le> label then Inl IndexError
        else case index_c c i of
          Inl e \<Rightarrow> Inl e
        | Inr ci \<Rightarrow>
            let class_correct' =
                  class_correct[label := class_correct ! label + (if ci then 1 else 0)] in
            if length class_total \<le> label then Inl IndexError
            else per_class_inner labels c rest
                   (class_correct', class_total[label := class_total ! label + 1]))"

definition per_class_batch ::
    "nat list \<Rightarrow> nat list \<Rightarrow> real list \<times> real list \<Rightarrow> py_error + (real list \<times> real list)" where
  "per_class_batch predicted labels acc =
     (case torch_eq predicted labels of
        Inl e \<Rightarrow> Inl e
      | Inr c \<Rightarrow> per_class_inner labels c [0..<batch_size] acc)"

text \<open>
  The loops of the three evaluation cells. \<open>with torch.no_grad()\<close> switches gradient
  recording off; it leaves the module's fields as they are. Each call of the model
  uses the dropout draws of its batch and leaves its buffers in the module. A fetch
  that raises ends the cell.
\<close>

fun accuracy_loop ::
    "kernels \<Rightarrow> (nat \<Rightarrow> nat \<Rightarrow> nat \<Rightarrow> nat \<Rightarrow> bool) \<Rightarrow> nat \<Rightarrow> (py_error + batch) list \<Rightarrow> module
       \<Rightarrow> nat \<times> nat \<Rightarrow> py_error + (module \<times> nat \<times> nat)" where
  "accuracy_loop K kd i [] m acc = Inr (m, acc)"
| "accuracy_loop K kd i (Inl e # rest) m acc = Inl e"
| "accuracy_loop K kd i (Inr data # rest) m acc =
     (let om = call_model K m (kd i) (fst data);
          predicted = torch_max_1 (fst om)
      in case accuracy_batch predicted (snd data) acc of
           Inl e \<Rightarrow> Inl e
         | Inr acc' \<Rightarrow> accuracy_loop K kd (Suc i) rest (snd om) acc')"

text \<open>\<^verbatim>\<open>100 * correct / total\<close>: Python raises when the divisor is zero.\<close>

definition percent :: "real \<Rightarrow> real \<Rightarrow> py_error + real" where
  "percent correct n = (if n = 0 then Inl ZeroDivisionError else Inr (100 * correct / n))"

definition accuracy_cell ::
    "kernels \<Rightarrow> (nat \<Rightarrow> nat \<Rightarrow> nat \<Rightarrow> nat \<Rightarrow> bool) \<Rightarrow> (py_error + batch) list \<Rightarrow> module
       \<Rightarrow> py_error + (module \<times> real)" where
  "accuracy_cell K kd loader m =
     (case accuracy_loop K kd 0 loader m (0, 0) of
        Inl e \<Rightarrow> Inl e
      | Inr (m', correct, n) \<Rightarrow>
          (case percent (real correct) (real n) of
             Inl e \<Rightarrow> Inl e
           | Inr p \<Rightarrow> Inr (m', p)))"

definition train_accuracy_cell ::
    "kernels \<Rightarrow> (pass_rng \<Rightarrow> (py_error + batch) list) \<Rightarrow> pass_rng \<Rightarrow> module
       \<Rightarrow> py_error + (module \<times> real)" where
  "train_accuracy_cell K loader rng m = accuracy_cell K (keep_draw rng) (loader rng) m"

definition test_accuracy_cell ::
    "kernels \<Rightarrow> (py_error + batch) list \<Rightarrow> pass_rng \<Rightarrow> module \<Rightarrow> py_error + (module \<times> real)" where
  "test_accuracy_cell K loader rng m = accuracy_cell K (keep_draw rng) loader m"

fun per_class_loop ::
    "kernels \<Rightarrow> (nat \<Rightarrow> nat \<Rightarrow> nat \<Rightarrow> nat \<Rightarrow> bool) \<Rightarrow> nat \<Rightarrow> (py_error + batch) list \<Rightarrow> module
       \<Rightarrow> real list \<times> real list \<Rightarrow> py_error + (module \<times> real list \<times> real list)" where
  "per_class_loop K kd i [] m acc = Inr (m, acc)"
| "per_class_loop K kd i (Inl e # rest) m acc = Inl e"
| "per_class_loop K kd i (Inr data # rest) m acc =
     (let om = call_model K m (kd i) (fst data);
          predicted = torch_max_1 (fst om)
      in case per_class_batch predicted (snd data) acc of
           Inl e \<Rightarrow> Inl e
         | Inr acc' \<Rightarrow> per_class_loop K kd (Suc i) rest (snd om) acc')"

definition per_class_counts ::
    "kernels \<Rightarrow> (py_error + batch) list \<Rightarrow> pass_rng \<Rightarrow> module
       \<Rightarrow> py_error + (module \<times> real list \<times> real list)" where
  "per_class_counts K loader rng m =
     per_class_loop K (keep_draw rng) 0 loader m (replicate 10 0, replicate 10 0)"

fun per_class_percent :: "nat list \<Rightarrow> real list \<Rightarrow> real list \<Rightarrow> py_error + real list" where
  "per_class_percent [] class_correct class_total = Inr []"
| "per_class_percent (i # rest) class_correct class_total =
     (case percent (class_correct ! i) (class_total ! i) of
        Inl e \<Rightarrow> Inl e
      | Inr p \<Rightarrow>
          (case per_class_percent rest class_correct class_total of
             Inl e \<Rightarrow> Inl e
           | Inr ps \<Rightarrow> Inr (p # ps)))"

definition per_class_cell ::
    "kernels \<Rightarrow> (py_error + batch) list \<Rightarrow> pass_rng \<Rightarrow> module
       \<Rightarrow> py_error + (module \<times> real list)" where
  "per_class_cell K loader rng m =
     (case per_class_counts K loader rng m of
        Inl e \<Rightarrow> Inl e
      | Inr (m', class_correct, class_total) \<Rightarrow>
          (case per_class_percent [0..<10] class_correct class_total of
             Inl e \<Rightarrow> Inl e
           | Inr ps \<Rightarrow> Inr (m', ps)))"

section \<open>The notebook, cell after cell\<close>

text \<open>
  The state after cells 5 to 11: cell 6 assigns the statistics of the raw training
  images, cells 8 to 11 build model, optimizer and scheduler. The draws of the run are
  indexed by pass: 0 to 39 for the training epochs, 40 for the train accuracy, 41 for
  the test accuracy, 42 for the per-class accuracy.
\<close>

definition initial_state :: "(image \<times> nat) list \<Rightarrow> real list \<Rightarrow> real list \<Rightarrow> py_error + nb_state" where
  "initial_state trainset params bufs =
     (case OneCycleLR SGD (len_loader (length trainset) batch_size) num_epochs of
        Inl e \<Rightarrow> Inl e
      | Inr so \<Rightarrow>
          Inr \<lparr>mean_trainset = data_mean (map fst trainset),
               std_trainset = data_std (map fst trainset),
               model = ResNet9 params bufs, optim = snd so, sched = fst so\<rparr>)"

definition trained ::
    "kernels \<Rightarrow> (image \<times> nat) list \<Rightarrow> real list \<Rightarrow> real list \<Rightarrow> (nat \<Rightarrow> pass_rng)
       \<Rightarrow> py_error + nb_state" where
  "trained K trainset params bufs rngs =
     (case initial_state trainset params bufs of
        Inl e \<Rightarrow> Inl e
      | Inr st \<Rightarrow> train_loop K trainset rngs st)"


definition cell14 ::
    "kernels \<Rightarrow> (image \<times> nat) list \<Rightarrow> pass_rng \<Rightarrow> nb_state \<Rightarrow> py_error + (nb_state \<times> real)" where
  "cell14 K testset rng st =
     (case test_accuracy_cell K (testloader st testset) rng (model st) of
        Inl e \<Rightarrow> Inl e
      | Inr (m, acc) \<Rightarrow> Inr (st\<lparr>model := m\<rparr>, acc))"




section \<open>Concrete instances\<close>

text \<open>
  A small instance of the framework's kernels, on which the cells can be evaluated: the
  convolutions keep the first ten components of every sample, the other layers pass
  their input on, and the gradient of a parameter is five times the parameter.
\<close>

definition toy_kernels :: kernels where
  "toy_kernels =
     \<lparr>Conv2d = (\<lambda>i p x. map (take 10) x), BatchNorm2d = (\<lambda>i t p b x. (x, b)),
      MaxPool2d = (\<lambda>n x. x), Linear = (\<lambda>i p x. x),
      autograd = (\<lambda>m keep x labels. map (\<lambda>p. 5 * p) (parameters m))\<rparr>"

text \<open>
  Draws: \<open>keep_all\<close> keeps the order of the samples, crops at the centre, flips nothing
  and drops nothing; the others differ from it in one kind of draw each.
\<close>

definition keep_all :: pass_rng where
  "keep_all = \<lparr>perm_draw = (\<lambda>i. 0), crop_draw = (\<lambda>i. (4, 4)), flip_draw = (\<lambda>i. False),
               keep_draw = (\<lambda>b l i j. True)\<rparr>"

definition drop_first :: pass_rng where
  "drop_first = keep_all\<lparr>keep_draw := (\<lambda>b l i j. if l = 3 \<and> j = 0 then False else True)\<rparr>"





text \<open>
  Images of CIFAR-10's shape: one colour throughout, or one pixel of the other colour
  in the first row.
\<close>

definition black :: pixel where "black = (0, 0, 0)"
definition white :: pixel where "white = (255, 255, 255)"
definition red :: pixel where "red = (255, 0, 0)"

definition black_image :: image where
  "black_image = replicate 32 (replicate 32 black)"

definition white_image :: image where
  "white_image = replicate 32 (replicate 32 white)"

definition red_image :: image where
  "red_image = replicate 32 (replicate 32 red)"

definition dot_image :: image where
  "dot_image = (black # white # replicate 30 black) # replicate 31 (replicate 32 black)"

definition hole_image :: image where
  "hole_image = (white # black # replicate 30 white) # replicate 31 (replicate 32 white)"

text \<open>
  Splits: a train split of CIFAR-10's size, half black and half white images; a train
  split of two images; a test split of CIFAR-10's size with 1,000 samples of each class;
  a test split of one red image, and the row the test loader makes of it.
\<close>

definition cifar_trainset :: "(image \<times> nat) list" where
  "cifar_trainset = replicate 25000 (black_image, 0) @ replicate 25000 (white_image, 1)"


definition balanced_testset :: "(image \<times> nat) list" where
  "balanced_testset = concat (replicate 1000 (map (\<lambda>k. (black_image, k)) [0..<10]))"

definition red_testset :: "(image \<times> nat) list" where
  "red_testset = [(red_image, 0)]"

definition red_row :: "real list" where
  "red_row = replicate 1024 1 @ replicate 2048 (- 1)"

text \<open>
  States one step before the end of their schedule, with the statistics of the two
  train splits above.
\<close>

definition toy_state :: nb_state where
  "toy_state = \<lparr>mean_trainset = [1 / 2, 1 / 2, 1 / 2], std_trainset = [1 / 2, 1 / 2, 1 / 2],
                model = ResNet9 [1, 2] [], optim = SGD,
                sched = \<lparr>last_epoch = 0, total_steps = 1\<rparr>\<rparr>"

definition clip_state :: nb_state where
  "clip_state = toy_state\<lparr>model := ResNet9 [1, - 1, 1 / 100] []\<rparr>"

section \<open>Assumptions on the framework's kernels and on the data\<close>

text \<open>
  Every kernel of the framework maps a batch to a batch with the same number of samples.
\<close>

definition row_preserving :: "kernels \<Rightarrow> bool" where
  "row_preserving K \<longleftrightarrow>
     (\<forall>i p x. length (Conv2d K i p x) = length x) \<and>
     (\<forall>i t p b x. length (fst (BatchNorm2d K i t p b x)) = length x) \<and>
     (\<forall>n x. length (MaxPool2d K n x) = length x) \<and>
     (\<forall>i p x. length (Linear K i p x) = length x)"

text \<open>
  A CIFAR-10 image has 32 rows of 32 pixels.
\<close>

definition cifar_shaped :: "image \<Rightarrow> bool" where
  "cifar_shaped img \<longleftrightarrow> length img = 32 \<and> list_all (\<lambda>row. length row = 32) img"

section \<open>Properties\<close>

subsection \<open>Predictions\<close>

lemma argmax_from_max:
  "row = pre @ xs \<Longrightarrow> length pre = i \<Longrightarrow> best < i \<Longrightarrow> bv = row ! best \<Longrightarrow>
   \<forall>x \<in> set pre. x \<le> bv \<Longrightarrow>
   argmax_from xs i best bv < length row \<and>
   (\<forall>x \<in> set row. x \<le> row ! argmax_from xs i best bv)"
proof (induction xs arbitrary: pre i best bv)
  case Nil
  then show ?case by simp
next
  case (Cons x xs)
  have row: "row = (pre @ [x]) @ xs" using Cons.prems(1) by simp
  have len: "length (pre @ [x]) = Suc i" using Cons.prems(2) by simp
  have xi: "row ! i = x" using Cons.prems(1,2) by (simp add: nth_append)
  show ?case
  proof (cases "bv < x")
    case True
    have "\<forall>y \<in> set (pre @ [x]). y \<le> x" using Cons.prems(5) True by auto
    from Cons.IH[OF row len _ _ this, of i] xi True show ?thesis by simp
  next
    case False
    have "\<forall>y \<in> set (pre @ [x]). y \<le> bv" using Cons.prems(5) False by auto
    from Cons.IH[OF row len _ Cons.prems(4) this] Cons.prems(3) False show ?thesis by simp
  qed
qed

lemma argmax_is_max:
  assumes "row \<noteq> []"
  shows "argmax row < length row \<and> (\<forall>x \<in> set row. x \<le> row ! argmax row)"
proof -
  from assms obtain x xs where r: "row = x # xs" by (cases row) auto
  have "argmax_from xs 1 0 x < length row \<and> (\<forall>y \<in> set row. y \<le> row ! argmax_from xs 1 0 x)"
    by (rule argmax_from_max[of row "[x]"]) (simp_all add: r)
  then show ?thesis by (simp add: argmax_def r)
qed

subsection \<open>The per-class loop\<close>

lemma per_class_inner_short:
  "i \<in> set idxs \<Longrightarrow> length labels \<le> i \<Longrightarrow> \<forall>l \<in> set labels. l < 10 \<Longrightarrow>
   length c = length labels \<Longrightarrow> length c \<noteq> 1 \<Longrightarrow>
   length cc = 10 \<Longrightarrow> length ct = 10 \<Longrightarrow>
   per_class_inner labels c idxs (cc, ct) = Inl IndexError"
proof (induction idxs arbitrary: cc ct)
  case Nil
  then show ?case by simp
next
  case (Cons j rest)
  show ?case
  proof (cases "length labels \<le> j")
    case True
    then show ?thesis by simp
  next
    case False
    then have jl: "j < length labels" by simp
    with Cons.prems have lab: "labels ! j < 10" by simp
    from False Cons.prems have mem: "i \<in> set rest" by auto
    have ic: "index_c c j = Inr (c ! j)"
      using jl Cons.prems by (simp add: index_c_def)
    show ?thesis
      using jl lab ic Cons.prems Cons.IH[OF mem]
      by (simp add: Let_def)
  qed
qed

lemma count_list_filter: "count_list xs k = length (filter (\<lambda>x. x = k) xs)"
  by (induction xs) auto

lemma filter_index_count:
  "length (filter (\<lambda>i. xs ! i = k) [0..<length xs]) = count_list xs k"
proof -
  have "filter (\<lambda>x. x = k) (map ((!) xs) [0..<length xs]) = filter (\<lambda>x. x = k) xs"
    by (simp add: map_nth)
  then have "length (filter ((\<lambda>x. x = k) \<circ> ((!) xs)) [0..<length xs]) = length (filter (\<lambda>x. x = k) xs)"
    by (metis length_filter_map)
  then show ?thesis by (simp add: count_list_filter comp_def)
qed

lemma per_class_inner_ok:
  "\<forall>i \<in> set idxs. i < length labels \<Longrightarrow> \<forall>l \<in> set labels. l < 10 \<Longrightarrow>
   length c = length labels \<Longrightarrow> length c \<noteq> 1 \<Longrightarrow>
   length cc = 10 \<Longrightarrow> length ct = 10 \<Longrightarrow>
   \<exists>cc' ct'. per_class_inner labels c idxs (cc, ct) = Inr (cc', ct') \<and>
     length cc' = 10 \<and> length ct' = 10 \<and>
     (\<forall>k<10. ct' ! k = ct ! k + real (length (filter (\<lambda>i. labels ! i = k) idxs)))"
proof (induction idxs arbitrary: cc ct)
  case Nil
  then show ?case by simp
next
  case (Cons j rest)
  then have jl: "j < length labels" by simp
  with Cons.prems have lab: "labels ! j < 10" by simp
  have ic: "index_c c j = Inr (c ! j)"
    using jl Cons.prems by (simp add: index_c_def)
  define cc1 where "cc1 = cc[labels ! j := cc ! (labels ! j) + (if c ! j then 1 else 0)]"
  define ct1 where "ct1 = ct[labels ! j := ct ! (labels ! j) + 1]"
  have nl: "\<not> length labels \<le> j" "\<not> length cc \<le> labels ! j" "\<not> length ct \<le> labels ! j"
    using jl lab Cons.prems(5,6) by simp_all
  have step: "per_class_inner labels c (j # rest) (cc, ct) = per_class_inner labels c rest (cc1, ct1)"
    using nl ic by (simp add: Let_def cc1_def ct1_def)
  have "\<forall>i \<in> set rest. i < length labels" using Cons.prems by simp
  from Cons.IH[OF this Cons.prems(2) Cons.prems(3) Cons.prems(4), of cc1 ct1] Cons.prems
  obtain cc' ct' where r: "per_class_inner labels c rest (cc1, ct1) = Inr (cc', ct')"
     "length cc' = 10" "length ct' = 10"
     "\<forall>k<10. ct' ! k = ct1 ! k + real (length (filter (\<lambda>i. labels ! i = k) rest))"
    by (auto simp: cc1_def ct1_def)
  have "\<forall>k<10. ct' ! k = ct ! k + real (length (filter (\<lambda>i. labels ! i = k) (j # rest)))"
    using r(4) lab Cons.prems(6) by (auto simp: ct1_def nth_list_update)
  with r step show ?case by simp
qed


subsection \<open>Shapes and frames of the forward pass\<close>

lemma length_ReLU [simp]: "length (ReLU x) = length x"
  by (simp add: ReLU_def)

lemma length_Dropout [simp]: "length (Dropout p t keep x) = length x"
  by (simp add: Dropout_def)

lemma length_tensor_add [simp]: "length (tensor_add a b) = min (length a) (length b)"
  by (simp add: tensor_add_def)

lemma conv_block_rows:
  "row_preserving K \<Longrightarrow> length (fst (conv_block K m idx pool s)) = length (fst s)"
  by (simp add: conv_block_def row_preserving_def Let_def)

lemma classifier_rows:
  "row_preserving K \<Longrightarrow> length (classifier K m keep x) = length x"
  by (simp add: classifier_def row_preserving_def Flatten_def)

lemma forward_rows:
  "row_preserving K \<Longrightarrow> length (fst (forward K m keep xb)) = length xb"
  by (simp add: forward_def Let_def conv_block_rows classifier_rows)

lemma call_model_rows:
  "row_preserving K \<Longrightarrow> length (fst (call_model K m keep xb)) = length xb"
  by (simp add: call_model_def Let_def forward_rows)

lemma call_model_frame:
  "parameters (snd (call_model K m keep xb)) = parameters m"
  "training (snd (call_model K m keep xb)) = training m"
  "grad (snd (call_model K m keep xb)) = grad m"
  by (simp_all add: call_model_def Let_def)

lemma per_class_batch_full:
  assumes "length predicted = batch_size" "length labels = batch_size"
    "\<forall>l \<in> set labels. l < 10" "length cc = 10" "length ct = 10"
  shows "\<exists>cc' ct'. per_class_batch predicted labels (cc, ct) = Inr (cc', ct') \<and>
     length cc' = 10 \<and> length ct' = 10 \<and>
     (\<forall>k<10. ct' ! k = ct ! k + real (count_list labels k))"
proof -
  have eq: "torch_eq predicted labels = Inr (map2 (=) predicted labels)"
    using assms by (simp add: torch_eq_def)
  have idx: "\<forall>i \<in> set [0..<batch_size]. i < length labels" using assms by simp
  have lc: "length (map2 (=) predicted labels) = length labels" using assms by simp
  have n1: "length (map2 (=) predicted labels) \<noteq> 1" using assms by (simp add: batch_size_def)
  from per_class_inner_ok[OF idx assms(3) lc n1 assms(4) assms(5)]
  obtain cc' ct' where r:
    "per_class_inner labels (map2 (=) predicted labels) [0..<batch_size] (cc, ct) = Inr (cc', ct')"
    "length cc' = 10" "length ct' = 10"
    "\<forall>k<10. ct' ! k = ct ! k + real (length (filter (\<lambda>i. labels ! i = k) [0..<batch_size]))"
    by blast
  have "\<And>k. length (filter (\<lambda>i. labels ! i = k) [0..<batch_size]) = count_list labels k"
    using filter_index_count[of labels] assms(2) by simp
  with r eq show ?thesis by (simp add: per_class_batch_def)
qed

lemma per_class_loop_full:
  assumes rp: "row_preserving K"
  shows "\<forall>b \<in> set loader. length (fst b) = batch_size \<and> length (snd b) = batch_size \<and>
            (\<forall>l \<in> set (snd b). l < 10) \<Longrightarrow>
     length cc = 10 \<Longrightarrow> length ct = 10 \<Longrightarrow>
     \<exists>m' cc' ct'. per_class_loop K kd i (map Inr loader) m (cc, ct) = Inr (m', cc', ct') \<and>
       length cc' = 10 \<and> length ct' = 10 \<and>
       (\<forall>k<10. ct' ! k = ct ! k + real (count_list (concat (map snd loader)) k))"
proof (induction loader arbitrary: i m cc ct)
  case Nil
  then show ?case by simp
next
  case (Cons b rest)
  define om where "om = call_model K m (kd i) (fst b)"
  have lp: "length (torch_max_1 (fst om)) = batch_size"
    using Cons.prems(1) by (simp add: om_def torch_max_1_def call_model_rows[OF rp])
  have lb: "length (snd b) = batch_size" "\<forall>l \<in> set (snd b). l < 10"
    using Cons.prems(1) by simp_all
  from per_class_batch_full[OF lp lb Cons.prems(2) Cons.prems(3)]
  obtain cc1 ct1 where b1:
    "per_class_batch (torch_max_1 (fst om)) (snd b) (cc, ct) = Inr (cc1, ct1)"
    "length cc1 = 10" "length ct1 = 10"
    "\<forall>k<10. ct1 ! k = ct ! k + real (count_list (snd b) k)"
    by blast
  have rest: "\<forall>b \<in> set rest. length (fst b) = batch_size \<and> length (snd b) = batch_size \<and>
            (\<forall>l \<in> set (snd b). l < 10)"
    using Cons.prems(1) by simp
  from Cons.IH[OF rest b1(2) b1(3), of "Suc i" "snd om"]
  obtain m' cc' ct' where r:
    "per_class_loop K kd (Suc i) (map Inr rest) (snd om) (cc1, ct1) = Inr (m', cc', ct')"
    "length cc' = 10" "length ct' = 10"
    "\<forall>k<10. ct' ! k = ct1 ! k + real (count_list (concat (map snd rest)) k)"
    by blast
  have step: "per_class_loop K kd i (map Inr (b # rest)) m (cc, ct) = Inr (m', cc', ct')"
    using b1(1) r(1) by (simp add: Let_def om_def)
  have "\<forall>k<10. ct' ! k = ct ! k + real (count_list (concat (map snd (b # rest))) k)"
    using r(4) b1(4) by (simp add: count_list_append)
  with step r(2,3) show ?case by blast
qed

subsection \<open>Batching\<close>

lemma concat_chunks:
  "concat (map (\<lambda>k. take bs (drop (k * bs) xs)) [0..<q]) = take (q * bs) xs"
proof (induction q)
  case 0
  then show ?case by simp
next
  case (Suc q)
  have "take (q * bs) xs @ take bs (drop (q * bs) xs) = take (q * bs + bs) xs"
    by (simp add: take_add)
  with Suc show ?case by (simp add: add.commute)
qed

lemma len_loader_covers: "0 < bs \<Longrightarrow> n \<le> len_loader n bs * bs"
proof -
  assume bs: "0 < bs"
  have "(n + bs - 1) mod bs < bs" using bs by simp
  moreover have "(n + bs - 1) div bs * bs + (n + bs - 1) mod bs = n + bs - 1" by simp
  ultimately show ?thesis unfolding len_loader_def by linarith
qed

lemma concat_batches: "0 < bs \<Longrightarrow> concat (batches bs xs) = xs"
  using len_loader_covers[of bs "length xs"] by (simp add: batches_def concat_chunks)

lemma length_batches: "length (batches bs xs) = len_loader (length xs) bs"
  by (simp add: batches_def)

lemma len_loader_exact: "0 < bs \<Longrightarrow> len_loader (q * bs) bs = q"
proof -
  assume bs: "0 < bs"
  have e: "q * bs + bs - 1 = (bs - 1) + q * bs" using bs by simp
  have "len_loader (q * bs) bs = ((bs - 1) + q * bs) div bs"
    unfolding len_loader_def by (simp only: e)
  also have "\<dots> = q + (bs - 1) div bs"
  proof (rule div_mult_self1)
    show "bs \<noteq> 0" using bs by simp
  qed
  also have "\<dots> = q" using bs by simp
  finally show ?thesis .
qed

lemma batches_full:
  assumes "0 < bs" "length xs = q * bs" "b \<in> set (batches bs xs)"
  shows "length b = bs"
proof -
  from assms(3) obtain k where k: "k < len_loader (length xs) bs" "b = take bs (drop (k * bs) xs)"
    by (auto simp: batches_def)
  then have "k < q" using assms by (simp add: len_loader_exact)
  then have "Suc k * bs \<le> q * bs" by (metis Suc_leI mult_le_mono1)
  then have "bs \<le> length xs - k * bs" using assms(2) by simp
  with k show ?thesis by simp
qed

lemma batches_subset: "b \<in> set (batches bs xs) \<Longrightarrow> set b \<subseteq> set xs"
  by (auto simp: batches_def dest: in_set_takeD in_set_dropD)

subsection \<open>Padding, cropping and flipping\<close>

lemma reflect_index_less: "0 < n \<Longrightarrow> reflect_index n k < n"
proof -
  assume n: "0 < n"
  show ?thesis
  proof (cases "n \<le> 1")
    case True
    then show ?thesis using n by (simp add: reflect_index_def)
  next
    case False
    define period where "period = 2 * (int n - 1)"
    define m where "m = k mod period"
    have pp: "0 < period" using False by (simp add: period_def)
    have m0: "0 \<le> m" "m < period" using pp by (simp_all add: m_def)
    have "nat (if m < int n then m else period - m) < n"
      using m0 False by (auto simp: period_def)
    moreover have "reflect_index n k = nat (if m < int n then m else period - m)"
      using False unfolding reflect_index_def Let_def period_def m_def by simp
    ultimately show ?thesis by simp
  qed
qed

lemma reflect_index_inside: "0 \<le> k \<Longrightarrow> k < int n \<Longrightarrow> reflect_index n k = nat k"
proof (cases "n \<le> 1")
  case True
  assume "0 \<le> k" "k < int n"
  then show ?thesis using True by (simp add: reflect_index_def)
next
  case False
  assume k: "0 \<le> k" "k < int n"
  then have "k mod (2 * (int n - 1)) = k" using False by simp
  then show ?thesis using False k by (simp add: reflect_index_def Let_def)
qed

lemma length_reflect_pad: "xs \<noteq> [] \<Longrightarrow> length (reflect_pad p xs) = length xs + 2 * p"
  by (simp add: reflect_pad_def)

lemma nth_reflect_pad:
  "xs \<noteq> [] \<Longrightarrow> k < length xs + 2 * p \<Longrightarrow>
   reflect_pad p xs ! k = xs ! reflect_index (length xs) (int k - int p)"
  by (simp add: reflect_pad_def)

lemma cifar_shaped_rows:
  assumes "cifar_shaped img"
  shows "length img = 32" "\<And>r. r < 32 \<Longrightarrow> length (img ! r) = 32" "img \<noteq> []" "[] \<notin> set img"
proof -
  show l: "length img = 32" using assms by (simp add: cifar_shaped_def)
  have all: "\<forall>row \<in> set img. length row = 32"
    using assms by (simp add: cifar_shaped_def list_all_iff)
  show "\<And>r. r < 32 \<Longrightarrow> length (img ! r) = 32" using all l by simp
  show "img \<noteq> []" using l by auto
  show "[] \<notin> set img" using all by auto
qed

lemma pad_reflect_cifar:
  assumes "cifar_shaped img"
  shows "\<exists>padded. pad_reflect 4 img = Inr padded \<and> length padded = 40 \<and>
     (\<forall>i<40. length (padded ! i) = 40 \<and>
        (\<forall>j<40. padded ! i ! j
            = img ! reflect_index 32 (int i - 4) ! reflect_index 32 (int j - 4)))"
proof -
  note s = cifar_shaped_rows[OF assms]
  let ?rows = "map (reflect_pad 4) img"
  let ?padded = "reflect_pad 4 ?rows"
  have ne: "?rows \<noteq> []" using s(3) by simp
  have lr: "length ?rows = 32" using s(1) by simp
  have p: "pad_reflect 4 img = Inr ?padded" using s(3,4) by (simp add: pad_reflect_def)
  have lp: "length ?padded = 40" using ne lr by (simp add: length_reflect_pad)
  have row: "\<forall>i<40. length (?padded ! i) = 40 \<and>
        (\<forall>j<40. ?padded ! i ! j
            = img ! reflect_index 32 (int i - 4) ! reflect_index 32 (int j - 4))"
  proof (intro allI impI)
    fix i :: nat assume i: "i < 40"
    define r where "r = reflect_index 32 (int i - 4)"
    have r: "r < 32" unfolding r_def by (rule reflect_index_less) simp
    have pi: "?padded ! i = reflect_pad 4 (img ! r)"
      using nth_reflect_pad[OF ne, of i 4] i lr r s(1) by (simp add: r_def)
    have ri: "img ! r \<noteq> []" "length (img ! r) = 32" using s(2)[OF r] by auto
    have "length (?padded ! i) = 40" using ri by (simp add: pi length_reflect_pad)
    moreover have "\<forall>j<40. ?padded ! i ! j = img ! r ! reflect_index 32 (int j - 4)"
      using ri by (simp add: pi nth_reflect_pad)
    ultimately show "length (?padded ! i) = 40 \<and>
        (\<forall>j<40. ?padded ! i ! j
            = img ! reflect_index 32 (int i - 4) ! reflect_index 32 (int j - 4))"
      by (simp add: r_def)
  qed
  from p lp row show ?thesis by blast
qed

lemma RandomCrop_cifar:
  assumes "cifar_shaped img"
  shows "\<exists>cropped. RandomCrop 32 4 (di, dj) img = Inr cropped \<and> cifar_shaped cropped \<and>
     (\<forall>r<32. \<forall>c<32. cropped ! r ! c
        = img ! reflect_index 32 (int r + int (di mod 9) - 4)
              ! reflect_index 32 (int c + int (dj mod 9) - 4))"
proof -
  from pad_reflect_cifar[OF assms] obtain padded where p:
    "pad_reflect 4 img = Inr padded" "length padded = 40"
    "\<forall>i<40. length (padded ! i) = 40 \<and>
        (\<forall>j<40. padded ! i ! j
            = img ! reflect_index 32 (int i - 4) ! reflect_index 32 (int j - 4))"
    by blast
  define i0 where "i0 = di mod 9"
  define j0 where "j0 = dj mod 9"
  have b: "i0 < 9" "j0 < 9" by (simp_all add: i0_def j0_def)
  let ?c = "crop padded i0 j0 32 32"
  have "padded \<noteq> []" using p(2) by auto
  then have "hd padded = padded ! 0" by (simp add: hd_conv_nth)
  then have hd: "length (hd padded) = 40" using p(3) by simp
  have rc: "RandomCrop 32 4 (di, dj) img = Inr ?c"
    using p(1,2) hd by (simp add: RandomCrop_def Let_def i0_def j0_def)
  have lc: "length ?c = 32" using p(2) b by (simp add: crop_def)
  have rows: "\<forall>r<32. length (?c ! r) = 32 \<and>
     (\<forall>c<32. ?c ! r ! c = img ! reflect_index 32 (int r + int i0 - 4)
                              ! reflect_index 32 (int c + int j0 - 4))"
  proof (intro allI impI)
    fix r :: nat assume r: "r < 32"
    have ri: "i0 + r < 40" using r b by simp
    have row: "?c ! r = take 32 (drop j0 (padded ! (i0 + r)))"
      using r p(2) b by (simp add: crop_def)
    have lrow: "length (padded ! (i0 + r)) = 40" using p(3) ri by blast
    have "length (?c ! r) = 32" using lrow b by (simp add: row)
    moreover have "\<forall>c<32. ?c ! r ! c = img ! reflect_index 32 (int r + int i0 - 4)
                              ! reflect_index 32 (int c + int j0 - 4)"
    proof (intro allI impI)
      fix c :: nat assume c: "c < 32"
      have cj: "j0 + c < 40" using c b by simp
      have "?c ! r ! c = padded ! (i0 + r) ! (j0 + c)"
        using c lrow b by (simp add: row)
      also have "\<dots> = img ! reflect_index 32 (int (i0 + r) - 4) ! reflect_index 32 (int (j0 + c) - 4)"
        using p(3) ri cj by blast
      finally show "?c ! r ! c = img ! reflect_index 32 (int r + int i0 - 4)
                              ! reflect_index 32 (int c + int j0 - 4)"
        by (simp add: add.commute)
    qed
    ultimately show "length (?c ! r) = 32 \<and>
     (\<forall>c<32. ?c ! r ! c = img ! reflect_index 32 (int r + int i0 - 4)
                              ! reflect_index 32 (int c + int j0 - 4))" by blast
  qed
  have "cifar_shaped ?c"
    using lc rows by (auto simp: cifar_shaped_def list_all_length)
  with rc rows show ?thesis by (auto simp: i0_def j0_def)
qed

subsection \<open>The two transforms, component by component\<close>

lemma hflip_cifar:
  assumes "cifar_shaped img"
  shows "cifar_shaped (hflip img)"
    and "\<And>r c. r < 32 \<Longrightarrow> c < 32 \<Longrightarrow> hflip img ! r ! c = img ! r ! (31 - c)"
proof -
  note s = cifar_shaped_rows[OF assms]
  show "cifar_shaped (hflip img)"
    using assms by (simp add: cifar_shaped_def hflip_def list_all_iff)
  fix r c :: nat assume rc: "r < 32" "c < 32"
  have "hflip img ! r = rev (img ! r)" using rc s(1) by (simp add: hflip_def)
  moreover have "length (img ! r) = 32" using s(2) rc by simp
  ultimately show "hflip img ! r ! c = img ! r ! (31 - c)"
    using rc by (simp add: rev_nth)
qed

lemma ToTensor_nth:
  assumes "ch < 3" "r < length img" "c < length (img ! r)"
  shows "ToTensor img ! ch ! r ! c = real (channel ch (img ! r ! c)) / 255"
  using assms by (simp add: ToTensor_def)

lemma ToTensor_shape:
  "length (ToTensor img) = 3"
  "ch < 3 \<Longrightarrow> length (ToTensor img ! ch) = length img"
  "ch < 3 \<Longrightarrow> r < length img \<Longrightarrow> length (ToTensor img ! ch ! r) = length (img ! r)"
  by (simp_all add: ToTensor_def)

lemma Normalize_zero: "0 \<in> set std \<Longrightarrow> Normalize mean std t = Inl ValueError"
  by (simp add: Normalize_def)

lemma Normalize_ok:
  assumes "0 \<notin> set std" "length mean = 3" "length std = 3" "length t = 3"
  shows "\<exists>t'. Normalize mean std t = Inr t' \<and> length t' = 3 \<and>
     (\<forall>ch<3. length (t' ! ch) = length (t ! ch) \<and>
        (\<forall>r<length (t ! ch). length (t' ! ch ! r) = length (t ! ch ! r) \<and>
           (\<forall>c<length (t ! ch ! r).
              t' ! ch ! r ! c = (t ! ch ! r ! c - mean ! ch) / std ! ch)))"
  using assms by (simp add: Normalize_def stat_at_def)

lemma test_transform_ok:
  assumes "0 \<notin> set std" "length mean = 3" "length std = 3"
  shows "\<exists>t. test_transform mean std img = Inr t \<and> length t = 3 \<and>
     (\<forall>ch<3. length (t ! ch) = length img \<and>
        (\<forall>r<length img. length (t ! ch ! r) = length (img ! r) \<and>
           (\<forall>c<length (img ! r).
              t ! ch ! r ! c = (real (channel ch (img ! r ! c)) / 255 - mean ! ch) / std ! ch)))"
proof -
  from Normalize_ok[OF assms, of "ToTensor img"] obtain t where t:
    "Normalize mean std (ToTensor img) = Inr t" "length t = 3"
    "\<forall>ch<3. length (t ! ch) = length (ToTensor img ! ch) \<and>
        (\<forall>r<length (ToTensor img ! ch). length (t ! ch ! r) = length (ToTensor img ! ch ! r) \<and>
           (\<forall>c<length (ToTensor img ! ch ! r).
              t ! ch ! r ! c = (ToTensor img ! ch ! r ! c - mean ! ch) / std ! ch))"
    by (auto simp: ToTensor_shape)
  have "\<forall>ch<3. length (t ! ch) = length img \<and>
        (\<forall>r<length img. length (t ! ch ! r) = length (img ! r) \<and>
           (\<forall>c<length (img ! r).
              t ! ch ! r ! c = (real (channel ch (img ! r ! c)) / 255 - mean ! ch) / std ! ch))"
    using t(3) by (simp add: ToTensor_shape ToTensor_nth)
  with t(1,2) show ?thesis by (simp add: test_transform_def)
qed

lemma test_transform_zero:
  "0 \<in> set std \<Longrightarrow> test_transform mean std img = Inl ValueError"
  by (simp add: test_transform_def Normalize_zero)

lemma train_transform_ok:
  assumes "cifar_shaped img" "0 \<notin> set std" "length mean = 3" "length std = 3"
  shows "\<exists>t. train_transform mean std (di, dj) flip img = Inr t \<and> length t = 3 \<and>
     (\<forall>ch<3. length (t ! ch) = 32 \<and>
        (\<forall>r<32. length (t ! ch ! r) = 32 \<and>
           (\<forall>c<32. t ! ch ! r ! c =
              (real (channel ch
                 (img ! reflect_index 32 (int r + int (di mod 9) - 4)
                      ! reflect_index 32 (int (if flip then 31 - c else c) + int (dj mod 9) - 4)))
                / 255 - mean ! ch) / std ! ch)))"
proof -
  from RandomCrop_cifar[OF assms(1), of di dj] obtain cropped where cr:
    "RandomCrop 32 4 (di, dj) img = Inr cropped" "cifar_shaped cropped"
    "\<forall>r<32. \<forall>c<32. cropped ! r ! c
        = img ! reflect_index 32 (int r + int (di mod 9) - 4)
              ! reflect_index 32 (int c + int (dj mod 9) - 4)"
    by blast
  define aug where "aug = RandomHorizontalFlip flip cropped"
  have sh: "cifar_shaped aug"
    using cr(2) hflip_cifar(1) by (simp add: aug_def RandomHorizontalFlip_def)
  note s = cifar_shaped_rows[OF sh]
  have px: "\<forall>r<32. \<forall>c<32. aug ! r ! c
        = img ! reflect_index 32 (int r + int (di mod 9) - 4)
              ! reflect_index 32 (int (if flip then 31 - c else c) + int (dj mod 9) - 4)"
  proof (intro allI impI)
    fix r c :: nat assume rc: "r < 32" "c < 32"
    show "aug ! r ! c
        = img ! reflect_index 32 (int r + int (di mod 9) - 4)
              ! reflect_index 32 (int (if flip then 31 - c else c) + int (dj mod 9) - 4)"
    proof (cases flip)
      case True
      have "31 - c < 32" by simp
      with cr(3) rc(1) have "cropped ! r ! (31 - c)
        = img ! reflect_index 32 (int r + int (di mod 9) - 4)
              ! reflect_index 32 (int (31 - c) + int (dj mod 9) - 4)" by blast
      then show ?thesis
        using True hflip_cifar(2)[OF cr(2) rc]
        by (simp add: aug_def RandomHorizontalFlip_def)
    next
      case False
      then show ?thesis using cr(3) rc by (simp add: aug_def RandomHorizontalFlip_def)
    qed
  qed
  from test_transform_ok[OF assms(2,3,4), of aug] obtain t where t:
    "test_transform mean std aug = Inr t" "length t = 3"
    "\<forall>ch<3. length (t ! ch) = length aug \<and>
        (\<forall>r<length aug. length (t ! ch ! r) = length (aug ! r) \<and>
           (\<forall>c<length (aug ! r).
              t ! ch ! r ! c = (real (channel ch (aug ! r ! c)) / 255 - mean ! ch) / std ! ch))"
    by blast
  have "train_transform mean std (di, dj) flip img = Inr t"
    using cr(1) t(1) by (simp add: train_transform_def test_transform_def aug_def)
  moreover have "\<forall>ch<3. length (t ! ch) = 32 \<and>
        (\<forall>r<32. length (t ! ch ! r) = 32 \<and>
           (\<forall>c<32. t ! ch ! r ! c =
              (real (channel ch
                 (img ! reflect_index 32 (int r + int (di mod 9) - 4)
                      ! reflect_index 32 (int (if flip then 31 - c else c) + int (dj mod 9) - 4)))
                / 255 - mean ! ch) / std ! ch))"
    using t(3) px s(1,2) by simp
  ultimately show ?thesis using t(2) by blast
qed

lemma train_transform_zero:
  "cifar_shaped img \<Longrightarrow> 0 \<in> set std \<Longrightarrow>
   train_transform mean std draw flip img = Inl ValueError"
  using RandomCrop_cifar[of img "fst draw" "snd draw"]
  by (auto simp: train_transform_def Normalize_zero)

subsection \<open>The loaders\<close>

lemma collate_ok:
  "\<forall>s \<in> set samples. \<exists>t. fst s = Inr t \<Longrightarrow>
   collate samples = Inr (map (\<lambda>s. concat (concat (projr (fst s)))) samples, map snd samples)"
proof (induction samples)
  case Nil
  then show ?case by simp
next
  case (Cons s rest)
  obtain x label where s: "s = (x, label)" by (cases s)
  from Cons.prems obtain t where t: "x = Inr t" by (auto simp: s)
  from Cons have "collate rest
      = Inr (map (\<lambda>s. concat (concat (projr (fst s)))) rest, map snd rest)" by simp
  then show ?case by (simp add: s t)
qed

lemma collate_error:
  "\<exists>s \<in> set samples. \<exists>e. fst s = Inl e \<Longrightarrow> \<exists>e. collate samples = Inl e"
proof (induction samples)
  case Nil
  then show ?case by simp
next
  case (Cons s rest)
  obtain x label where s: "s = (x, label)" by (cases s)
  show ?case
  proof (cases x)
    case (Inl e)
    then show ?thesis by (simp add: s)
  next
    case (Inr t)
    with Cons.prems have "\<exists>s \<in> set rest. \<exists>e. fst s = Inl e" by (auto simp: s)
    from Cons.IH[OF this] obtain e where "collate rest = Inl e" by blast
    then show ?thesis by (simp add: s Inr)
  qed
qed

lemma batches_ok:
  assumes "\<forall>s \<in> set samples. \<exists>t. fst s = Inr t"
  shows "map collate (batches bs samples)
     = map Inr (map (\<lambda>chunk. (map (\<lambda>s. concat (concat (projr (fst s)))) chunk, map snd chunk))
                  (batches bs samples))"
proof -
  have "\<And>chunk. chunk \<in> set (batches bs samples) \<Longrightarrow>
      collate chunk = Inr (map (\<lambda>s. concat (concat (projr (fst s)))) chunk, map snd chunk)"
  proof -
    fix chunk assume "chunk \<in> set (batches bs samples)"
    then have "set chunk \<subseteq> set samples" by (rule batches_subset)
    with assms have "\<forall>s \<in> set chunk. \<exists>t. fst s = Inr t" by blast
    then show "collate chunk
        = Inr (map (\<lambda>s. concat (concat (projr (fst s)))) chunk, map snd chunk)"
      by (rule collate_ok)
  qed
  then show ?thesis by simp
qed

lemma mset_permute: "length xs = n \<Longrightarrow> mset (permute n g xs) = mset xs"
proof (induction n arbitrary: xs)
  case 0
  then show ?case by simp
next
  case (Suc n)
  let ?i = "g n mod length xs"
  have i: "?i < length xs" using Suc.prems by simp
  have l: "length (take ?i xs @ drop (Suc ?i) xs) = n" using Suc.prems i by simp
  have "xs = take ?i xs @ xs ! ?i # drop (Suc ?i) xs" using i by (rule id_take_nth_drop)
  then have "mset xs = mset (take ?i xs @ xs ! ?i # drop (Suc ?i) xs)" by simp
  then have "mset xs = add_mset (xs ! ?i) (mset (take ?i xs @ drop (Suc ?i) xs))" by simp
  with Suc.IH[OF l] show ?case by (simp add: Let_def)
qed

lemma mset_shuffled: "mset (shuffled g xs) = mset xs"
  by (simp add: shuffled_def mset_permute)

lemma set_shuffled: "set (shuffled g xs) = set xs"
  using mset_shuffled[of g xs] by (metis set_mset_mset)

lemma length_shuffled: "length (shuffled g xs) = length xs"
  using mset_shuffled[of g xs] by (metis size_mset)


lemma train_samples_ok:
  assumes "list_all (\<lambda>s. cifar_shaped (fst s)) trainset"
    "0 \<notin> set std" "length mean = 3" "length std = 3"
  shows "\<forall>s \<in> set (map (\<lambda>(k, (img, label)).
               (train_transform mean std (crop_draw rng k) (flip_draw rng k) img, label))
          (zip [0..<length trainset] (shuffled (perm_draw rng) trainset))). \<exists>t. fst s = Inr t"
proof
  fix s
  assume "s \<in> set (map (\<lambda>(k, (img, label)).
               (train_transform mean std (crop_draw rng k) (flip_draw rng k) img, label))
          (zip [0..<length trainset] (shuffled (perm_draw rng) trainset)))"
  then obtain k img label where k:
    "(k, (img, label)) \<in> set (zip [0..<length trainset] (shuffled (perm_draw rng) trainset))"
    "s = (train_transform mean std (crop_draw rng k) (flip_draw rng k) img, label)"
    by auto
  from k(1) have "(img, label) \<in> set (shuffled (perm_draw rng) trainset)"
    by (rule set_zip_rightD)
  then have "(img, label) \<in> set trainset" by (simp add: set_shuffled)
  with assms(1) have sh: "cifar_shaped img" by (auto simp: list_all_iff)
  obtain di dj where d: "crop_draw rng k = (di, dj)" by (cases "crop_draw rng k")
  from train_transform_ok[OF sh assms(2,3,4), of di dj "flip_draw rng k"]
  show "\<exists>t. fst s = Inr t" by (auto simp: k(2) d)
qed

lemma train_pipeline_ok:
  assumes "list_all (\<lambda>s. cifar_shaped (fst s)) trainset"
    "0 \<notin> set std" "length mean = 3" "length std = 3"
  shows "\<exists>bs. train_pipeline mean std trainset rng = map Inr bs \<and>
           length bs = len_loader (length trainset) batch_size"
proof -
  let ?samples = "map (\<lambda>(k, (img, label)).
               (train_transform mean std (crop_draw rng k) (flip_draw rng k) img, label))
          (zip [0..<length trainset] (shuffled (perm_draw rng) trainset))"
  let ?bs = "map (\<lambda>chunk. (map (\<lambda>s. concat (concat (projr (fst s)))) chunk, map snd chunk))
                  (batches batch_size ?samples)"
  have "train_pipeline mean std trainset rng = map Inr ?bs"
    unfolding train_pipeline_def
    using batches_ok[OF train_samples_ok[OF assms], of batch_size rng] by simp
  moreover have "length ?bs = len_loader (length trainset) batch_size"
    by (simp add: length_batches length_shuffled)
  ultimately show ?thesis by blast
qed

lemma length_train_pipeline:
  "length (train_pipeline mean std trainset rng) = len_loader (length trainset) batch_size"
  by (simp add: train_pipeline_def length_batches length_shuffled)

lemma test_samples_ok:
  assumes "0 \<notin> set std" "length mean = 3" "length std = 3"
  shows "\<forall>s \<in> set (map (\<lambda>(img, label). (test_transform mean std img, label)) testset).
           \<exists>t. fst s = Inr t"
proof
  fix s assume "s \<in> set (map (\<lambda>(img, label). (test_transform mean std img, label)) testset)"
  then obtain img label where "s = (test_transform mean std img, label)" by auto
  with test_transform_ok[OF assms, of img] show "\<exists>t. fst s = Inr t" by auto
qed

lemma test_pipeline_ok:
  assumes "0 \<notin> set std" "length mean = 3" "length std = 3"
  shows "\<exists>bs. test_pipeline mean std testset = map Inr bs \<and>
           concat (map snd bs) = map snd testset \<and>
           (\<forall>q. length testset = q * batch_size \<longrightarrow>
              (\<forall>b \<in> set bs. length (fst b) = batch_size \<and> length (snd b) = batch_size)) \<and>
           (\<forall>b \<in> set bs. set (snd b) \<subseteq> snd ` set testset)"
proof -
  let ?f = "\<lambda>(img, label). (test_transform mean std img, label)"
  let ?samples = "map ?f testset"
  let ?g = "\<lambda>chunk. (map (\<lambda>s. concat (concat (projr (fst s)))) chunk, map (snd :: _ \<Rightarrow> nat) chunk)"
  let ?bs = "map ?g (batches batch_size ?samples)"
  have p: "test_pipeline mean std testset = map Inr ?bs"
    unfolding test_pipeline_def using batches_ok[OF test_samples_ok[OF assms]] by simp
  have sg: "snd \<circ> ?g = map snd" by (rule ext) simp
  have "map snd ?bs = map (map snd) (batches batch_size ?samples)"
    unfolding map_map sg ..
  then have "concat (map snd ?bs) = concat (map (map snd) (batches batch_size ?samples))"
    by (rule arg_cong)
  also have "\<dots> = map snd (concat (batches batch_size ?samples))"
    by (simp only: map_concat)
  also have "\<dots> = map snd ?samples"
    by (simp add: concat_batches batch_size_def)
  also have "\<dots> = map snd testset" by (simp add: comp_def case_prod_unfold)
  finally have l: "concat (map snd ?bs) = map snd testset" .
  have full: "\<forall>q. length testset = q * batch_size \<longrightarrow>
              (\<forall>b \<in> set ?bs. length (fst b) = batch_size \<and> length (snd b) = batch_size)"
  proof (intro allI impI ballI)
    fix q b assume q: "length testset = q * batch_size" and b: "b \<in> set ?bs"
    from b obtain chunk where c: "chunk \<in> set (batches batch_size ?samples)" "b = ?g chunk"
      by auto
    have "length chunk = batch_size"
      using batches_full[OF _ _ c(1), of q] q by (simp add: batch_size_def)
    then show "length (fst b) = batch_size \<and> length (snd b) = batch_size"
      by (simp add: c(2))
  qed
  have sub: "\<forall>b \<in> set ?bs. set (snd b) \<subseteq> snd ` set testset"
  proof
    fix b assume b: "b \<in> set ?bs"
    from b obtain chunk where c: "chunk \<in> set (batches batch_size ?samples)" "b = ?g chunk"
      by auto
    have "set chunk \<subseteq> set ?samples" using c(1) by (rule batches_subset)
    then have "snd ` set chunk \<subseteq> snd ` set ?samples" by blast
    also have "snd ` set ?samples = snd ` set testset"
      by (force simp: case_prod_unfold)
    finally show "set (snd b) \<subseteq> snd ` set testset" by (simp add: c(2))
  qed
  from p l full sub show ?thesis by blast
qed

subsection \<open>The training loop\<close>

lemma SGD_step_frame:
  "training (fst (SGD_step opt m)) = training m"
  "buffers (fst (SGD_step opt m)) = buffers m"
  "grad (fst (SGD_step opt m)) = grad m"
  by (simp_all add: SGD_step_def Let_def split: option.splits)

lemma before_update_frame:
  "training (before_update K m keep data) = training m"
  "parameters (before_update K m keep data) = parameters m"
  by (simp_all add: before_update_def Let_def call_model_def zero_grad_def backward_def
      clip_grad_value_def)

lemma set_rates_lr:
  "lr (set_rates n k opt) = fst (get_lr n k)"
  "momentum (set_rates n k opt) = snd (get_lr n k)"
  by (simp_all add: set_rates_def)

lemma train_step_ok:
  assumes "last_epoch (sched st) < total_steps (sched st)"
  shows "\<exists>st'. train_step K st keep data = Inr st' \<and>
     last_epoch (sched st') = Suc (last_epoch (sched st)) \<and>
     total_steps (sched st') = total_steps (sched st) \<and>
     training (model st') = training (model st) \<and>
     model st' = fst (SGD_step (optim st) (before_update K (model st) keep data)) \<and>
     lr (optim st') = fst (get_lr (total_steps (sched st')) (last_epoch (sched st')))"
  using assms
  by (simp add: train_step_def scheduler_step_def Let_def SGD_step_frame before_update_frame
      set_rates_lr)


lemma train_step_statistics:
  assumes "train_step K st keep data = Inr st'"
  shows "mean_trainset st' = mean_trainset st \<and> std_trainset st' = std_trainset st"
  using assms
  by (auto simp: train_step_def Let_def split: sum.splits)

lemma train_batches_statistics:
  "train_batches K kd i loader st = Inr st' \<Longrightarrow>
   mean_trainset st' = mean_trainset st \<and> std_trainset st' = std_trainset st"
proof (induction loader arbitrary: i st)
  case Nil
  then show ?case by simp
next
  case (Cons b rest)
  show ?case
  proof (cases b)
    case (Inl e)
    with Cons.prems show ?thesis by simp
  next
    case (Inr data)
    with Cons.prems obtain st1 where s: "train_step K st (kd i) data = Inr st1"
      "train_batches K kd (Suc i) rest st1 = Inr st'"
      by (auto split: sum.splits)
    from Cons.IH[OF s(2)] train_step_statistics[OF s(1)] show ?thesis by simp
  qed
qed

lemma train_epochs_statistics:
  "train_epochs K trainset rngs es st = Inr st' \<Longrightarrow>
   mean_trainset st' = mean_trainset st \<and> std_trainset st' = std_trainset st"
proof (induction es arbitrary: st)
  case Nil
  then show ?case by simp
next
  case (Cons e es)
  from Cons.prems obtain st1 where s:
    "train_batches K (keep_draw (rngs e)) 0 (trainloader st trainset (rngs e)) st = Inr st1"
    "train_epochs K trainset rngs es st1 = Inr st'"
    by (auto split: sum.splits)
  from Cons.IH[OF s(2)] train_batches_statistics[OF s(1)] show ?case by simp
qed

lemma initial_state_statistics:
  "initial_state trainset params bufs = Inr st \<Longrightarrow>
   mean_trainset st = data_mean (map fst trainset) \<and>
   std_trainset st = data_std (map fst trainset)"
  by (auto simp: initial_state_def split: sum.splits)

lemma trained_statistics:
  assumes "trained K trainset params bufs rngs = Inr st"
  shows "mean_trainset st = data_mean (map fst trainset) \<and>
         std_trainset st = data_std (map fst trainset)"
proof -
  from assms obtain st0 where s: "initial_state trainset params bufs = Inr st0"
    "train_epochs K trainset rngs [0..<num_epochs] st0 = Inr st"
    by (auto simp: trained_def train_loop_def split: sum.splits)
  from train_epochs_statistics[OF s(2)] initial_state_statistics[OF s(1)]
  show ?thesis by simp
qed

lemma train_batches_ok:
  "last_epoch (sched st) + length bs \<le> total_steps (sched st) \<Longrightarrow>
   \<exists>st'. train_batches K kd i (map Inr bs) st = Inr st' \<and>
     last_epoch (sched st') = last_epoch (sched st) + length bs \<and>
     total_steps (sched st') = total_steps (sched st) \<and>
     training (model st') = training (model st)"
proof (induction bs arbitrary: i st)
  case Nil
  then show ?case by simp
next
  case (Cons b bs)
  then have "last_epoch (sched st) < total_steps (sched st)" by simp
  from train_step_ok[OF this, of K "kd i" b]
  obtain st1 where s1: "train_step K st (kd i) b = Inr st1"
    "last_epoch (sched st1) = Suc (last_epoch (sched st))"
    "total_steps (sched st1) = total_steps (sched st)"
    "training (model st1) = training (model st)"
    by blast
  have "last_epoch (sched st1) + length bs \<le> total_steps (sched st1)"
    using Cons.prems s1 by simp
  from Cons.IH[OF this, of "Suc i"] obtain st' where
    "train_batches K kd (Suc i) (map Inr bs) st1 = Inr st'"
    "last_epoch (sched st') = last_epoch (sched st1) + length bs"
    "total_steps (sched st') = total_steps (sched st1)"
    "training (model st') = training (model st1)"
    by blast
  with s1 show ?case by simp
qed

lemma data_statistics_length: "length (data_mean data) = 3" "length (data_std data) = 3"
  by (simp_all add: data_mean_def data_std_def)

lemma train_epochs_ok:
  assumes shaped: "list_all (\<lambda>s. cifar_shaped (fst s)) trainset"
  shows "0 \<notin> set (std_trainset st) \<Longrightarrow> length (mean_trainset st) = 3 \<Longrightarrow>
   length (std_trainset st) = 3 \<Longrightarrow>
   last_epoch (sched st) + length es * len_loader (length trainset) batch_size
     \<le> total_steps (sched st) \<Longrightarrow>
   \<exists>st'. train_epochs K trainset rngs es st = Inr st' \<and>
     last_epoch (sched st')
       = last_epoch (sched st) + length es * len_loader (length trainset) batch_size \<and>
     total_steps (sched st') = total_steps (sched st) \<and>
     training (model st') = training (model st)"
proof (induction es arbitrary: st)
  case Nil
  then show ?case by simp
next
  case (Cons e es)
  let ?L = "len_loader (length trainset) batch_size"
  from train_pipeline_ok[OF shaped Cons.prems(1,2,3), of "rngs e"]
  obtain bs where bs: "trainloader st trainset (rngs e) = map Inr bs" "length bs = ?L"
    by (auto simp: trainloader_def)
  have "last_epoch (sched st) + length bs \<le> total_steps (sched st)"
    using Cons.prems(4) bs(2) by simp
  from train_batches_ok[OF this, of K "keep_draw (rngs e)" 0]
  obtain st1 where s1:
    "train_batches K (keep_draw (rngs e)) 0 (trainloader st trainset (rngs e)) st = Inr st1"
    "last_epoch (sched st1) = last_epoch (sched st) + ?L"
    "total_steps (sched st1) = total_steps (sched st)"
    "training (model st1) = training (model st)"
    using bs by auto
  note f = train_batches_statistics[OF s1(1)]
  have p: "0 \<notin> set (std_trainset st1)" "length (mean_trainset st1) = 3"
    "length (std_trainset st1) = 3"
    using f Cons.prems(1,2,3) by simp_all
  have "last_epoch (sched st1) + length es * ?L \<le> total_steps (sched st1)"
    using Cons.prems(4) s1 by simp
  from Cons.IH[OF p this] obtain st' where
    "train_epochs K trainset rngs es st1 = Inr st'"
    "last_epoch (sched st') = last_epoch (sched st1) + length es * ?L"
    "total_steps (sched st') = total_steps (sched st1)"
    "training (model st') = training (model st1)"
    by blast
  with s1 show ?case by simp
qed

lemma len_loader_pos: "0 < n \<Longrightarrow> 0 < len_loader n batch_size"
  by (simp add: len_loader_def batch_size_def div_greater_zero_iff)

lemma trained_ok:
  assumes "trainset \<noteq> []" "list_all (\<lambda>s. cifar_shaped (fst s)) trainset"
    "0 \<notin> set (data_std (map fst trainset))"
  shows "\<exists>st. trained K trainset params bufs rngs = Inr st \<and>
     last_epoch (sched st) = num_epochs * len_loader (length trainset) batch_size \<and>
     total_steps (sched st) = num_epochs * len_loader (length trainset) batch_size \<and>
     training (model st) \<and>
     mean_trainset st = data_mean (map fst trainset) \<and>
     std_trainset st = data_std (map fst trainset)"
proof -
  let ?L = "len_loader (length trainset) batch_size"
  have pos: "0 < num_epochs * ?L"
    using assms(1) len_loader_pos[of "length trainset"] by (simp add: num_epochs_def)
  define st0 where "st0 = \<lparr>mean_trainset = data_mean (map fst trainset),
      std_trainset = data_std (map fst trainset), model = ResNet9 params bufs,
      optim = set_rates (num_epochs * ?L) 0 SGD,
      sched = \<lparr>last_epoch = 0, total_steps = num_epochs * ?L\<rparr>\<rparr>"
  have init: "initial_state trainset params bufs = Inr st0"
    using pos by (simp add: initial_state_def OneCycleLR_def Let_def st0_def)
  have p: "0 \<notin> set (std_trainset st0)" "length (mean_trainset st0) = 3"
    "length (std_trainset st0) = 3"
    using assms(3) by (simp_all add: st0_def data_statistics_length)
  have "last_epoch (sched st0) + length [0..<num_epochs] * ?L \<le> total_steps (sched st0)"
    by (simp add: st0_def)
  from train_epochs_ok[OF assms(2) p this, of K rngs]
  obtain st where st: "train_epochs K trainset rngs [0..<num_epochs] st0 = Inr st"
    "last_epoch (sched st) = last_epoch (sched st0) + length [0..<num_epochs] * ?L"
    "total_steps (sched st) = total_steps (sched st0)"
    "training (model st) = training (model st0)"
    by blast
  have t: "trained K trainset params bufs rngs = Inr st"
    using init st(1) by (simp add: trained_def train_loop_def)
  from trained_statistics[OF t] st t show ?thesis
    by (simp add: st0_def ResNet9_def)
qed

subsection \<open>The concrete splits\<close>

lemma concat_replicate_replicate: "concat (replicate n (replicate m x)) = replicate (n * m) x"
  by (induction n) (simp_all add: replicate_add)

lemma cifar_shaped_uniform: "cifar_shaped (replicate 32 (replicate 32 px))"
  by (simp add: cifar_shaped_def list_all_iff)

lemma cifar_shaped_images:
  "cifar_shaped black_image" "cifar_shaped white_image" "cifar_shaped red_image"
  "cifar_shaped dot_image" "cifar_shaped hole_image"
  by (simp_all add: black_image_def white_image_def red_image_def dot_image_def hole_image_def
      cifar_shaped_def list_all_iff)

lemma cifar_trainset_shaped: "list_all (\<lambda>s. cifar_shaped (fst s)) cifar_trainset"
  by (auto simp: cifar_trainset_def list_all_iff cifar_shaped_images)


lemma cifar_trainset_length: "length cifar_trainset = 50000"
  by (simp add: cifar_trainset_def)

lemma np_std_two_valued:
  assumes "xs \<noteq> []" "set xs \<subseteq> {0, 255}" "np_mean xs = 255 / 2"
  shows "np_std xs = 255 / 2"
proof -
  have "map (\<lambda>x. (x - 255 / 2)\<^sup>2) xs = replicate (length xs) ((255 / 2) * (255 / 2))"
    using assms(2) by (induction xs) (auto simp: power2_eq_square)
  then have "map (\<lambda>x. (x - np_mean xs)\<^sup>2) xs = replicate (length xs) ((255 / 2) * (255 / 2))"
    by (simp only: assms(3))
  moreover have "np_mean (replicate (length xs) ((255 / 2) * (255 / 2))) = (255 / 2) * (255 / 2 :: real)"
    using assms(1) by (simp add: np_mean_def sum_list_replicate)
  ultimately have "np_mean (map (\<lambda>x. (x - np_mean xs)\<^sup>2) xs) = (255 / 2) * (255 / 2)"
    by (simp only:)
  moreover have "sqrt ((255 / 2) * (255 / 2)) = (255 / 2 :: real)" by (simp only: real_sqrt_abs2)
  ultimately show ?thesis by (simp only: np_std_def)
qed

lemma cifar_channel_values:
  "ch < 3 \<Longrightarrow> channel_values (map fst cifar_trainset) ch
     = replicate 25600000 0 @ replicate 25600000 255"
  by (simp add: channel_values_def cifar_trainset_def black_image_def white_image_def
      map_replicate concat_replicate_replicate black_def white_def)

lemma cifar_statistics:
  "data_mean (map fst cifar_trainset) = [1 / 2, 1 / 2, 1 / 2]"
  "data_std (map fst cifar_trainset) = [1 / 2, 1 / 2, 1 / 2]"
proof -
  let ?v = "replicate 25600000 0 @ replicate 25600000 (255::real)"
  have m: "np_mean ?v = 255 / 2" by (simp add: np_mean_def sum_list_replicate)
  have s: "np_std ?v = 255 / 2" by (rule np_std_two_valued[OF _ _ m]) auto
  show "data_mean (map fst cifar_trainset) = [1 / 2, 1 / 2, 1 / 2]"
    by (simp add: data_mean_def cifar_channel_values m upt_conv_Cons)
  show "data_std (map fst cifar_trainset) = [1 / 2, 1 / 2, 1 / 2]"
    by (simp add: data_std_def cifar_channel_values s upt_conv_Cons)
qed



lemma red_transform:
  "test_transform [1 / 2, 1 / 2, 1 / 2] [1 / 2, 1 / 2, 1 / 2] red_image
     = Inr [replicate 32 (replicate 32 1), replicate 32 (replicate 32 (- 1)),
            replicate 32 (replicate 32 (- 1))]"
  by (simp add: test_transform_def Normalize_def ToTensor_def red_image_def red_def stat_at_def
      upt_conv_Cons map_replicate)

lemma red_pipeline:
  "test_pipeline [1 / 2, 1 / 2, 1 / 2] [1 / 2, 1 / 2, 1 / 2] red_testset = [Inr ([red_row], [0])]"
  by (simp add: test_pipeline_def red_testset_def batches_def len_loader_def batch_size_def
      red_transform red_row_def concat_replicate_replicate replicate_add[symmetric])

lemma balanced_length: "length balanced_testset = 10000"
  by (simp add: balanced_testset_def length_concat sum_list_replicate)

lemma balanced_labels: "\<forall>s \<in> set balanced_testset. snd s < 10"
  by (auto simp: balanced_testset_def)

lemma count_list_concat_replicate:
  "count_list (concat (replicate n xs)) k = n * count_list xs k"
  by (induction n) simp_all

lemma balanced_counts: "\<forall>k<10. count_list (map snd balanced_testset) k = 1000"
proof -
  have m: "map snd balanced_testset = concat (replicate 1000 [0..<10])"
    by (simp add: balanced_testset_def map_concat comp_def)
  have "\<And>k. k < 10 \<Longrightarrow> count_list [0..<10] k = (1::nat)"
    by (simp add: count_list_filter upt_conv_Cons) 
  then show ?thesis by (simp add: m count_list_concat_replicate)
qed

subsection \<open>Per-class totals\<close>

lemma toy_row_preserving: "row_preserving toy_kernels"
  by (simp add: row_preserving_def toy_kernels_def)

lemma sum_list_class_total:
  assumes "length ct = 10" "\<forall>k<10. ct ! k = real (count_list ls k)" "\<forall>l \<in> set ls. l < (10::nat)"
  shows "sum_list ct = real (length ls)"
proof -
  have "sum_list ct = (\<Sum>k = 0..<10. ct ! k)"
    using assms(1) by (metis sum_list_sum_nth)
  also have "\<dots> = (\<Sum>k = 0..<10. real (count_list ls k))"
    using assms(2) by simp
  also have "\<dots> = real (\<Sum>k \<in> {0..<10}. count_list ls k)" by simp
  also have "(\<Sum>k \<in> {0..<10}. count_list ls k) = length ls"
    using assms(3) by (intro sum_count_set) auto
  finally show ?thesis .
qed

lemma per_class_counts_full:
  assumes rp: "row_preserving K"
    and stats: "0 \<notin> set std" "length mean = 3" "length std = 3"
    and len: "length testset = q * batch_size"
    and labels: "\<forall>s \<in> set testset. snd s < 10"
  shows "\<exists>m' cc ct. per_class_counts K (test_pipeline mean std testset) rng m = Inr (m', cc, ct) \<and>
           length ct = 10 \<and> (\<forall>k<10. ct ! k = real (count_list (map snd testset) k))"
proof -
  from test_pipeline_ok[OF stats, of testset] obtain bs where bs:
    "test_pipeline mean std testset = map Inr bs"
    "concat (map snd bs) = map snd testset"
    "\<forall>q. length testset = q * batch_size \<longrightarrow>
       (\<forall>b \<in> set bs. length (fst b) = batch_size \<and> length (snd b) = batch_size)"
    "\<forall>b \<in> set bs. set (snd b) \<subseteq> snd ` set testset"
    by blast
  have full: "\<forall>b \<in> set bs.
      length (fst b) = batch_size \<and> length (snd b) = batch_size \<and> (\<forall>l \<in> set (snd b). l < 10)"
  proof
    fix b assume b: "b \<in> set bs"
    from bs(3) len b have "length (fst b) = batch_size \<and> length (snd b) = batch_size" by blast
    moreover have "\<forall>l \<in> set (snd b). l < 10"
    proof
      fix l assume "l \<in> set (snd b)"
      with bs(4) b have "l \<in> snd ` set testset" by blast
      with labels show "l < 10" by auto
    qed
    ultimately show "length (fst b) = batch_size \<and> length (snd b) = batch_size \<and>
        (\<forall>l \<in> set (snd b). l < 10)" by simp
  qed
  from per_class_loop_full[OF rp full, of "replicate 10 0" "replicate 10 0" "keep_draw rng" 0 m]
  obtain m' cc ct where r:
    "per_class_loop K (keep_draw rng) 0 (map Inr bs) m (replicate 10 0, replicate 10 0)
       = Inr (m', cc, ct)"
    "length ct = 10"
    "\<forall>k<10. ct ! k = replicate 10 0 ! k + real (count_list (concat (map snd bs)) k)"
    by auto
  have "\<forall>k<10. ct ! k = real (count_list (map snd testset) k)"
    using r(3) by (simp add: bs(2))
  with r(1,2) show ?thesis by (auto simp: per_class_counts_def bs(1))
qed

text \<open>
  Claim C8. Take a state of the notebook whose normalisation deviations are non-zero (so
  that \<open>Normalize\<close> does not raise) and a test split of 10,000 images of 32 by 32
  pixels in which each of the ten classes has 1,000 samples. Then the per-class loop of cell 15 over
  \<open>testloader\<close> completes, its ten totals add up to 10,000, and each total is 1,000. The
  kernels are assumed to return one output row per input sample.
\<close>

theorem per_class_totals:
  assumes "row_preserving K"
    "0 \<notin> set (std_trainset st)" "length (mean_trainset st) = 3" "length (std_trainset st) = 3"
    "list_all (\<lambda>s. cifar_shaped (fst s)) testset"
    "length testset = 10000" "\<forall>s \<in> set testset. snd s < 10"
    "\<forall>k<10. count_list (map snd testset) k = 1000"
  shows "\<exists>m' cc ct. per_class_counts K (testloader st testset) rng (model st) = Inr (m', cc, ct) \<and>
           sum_list ct = 10000 \<and> ct = replicate 10 1000"
proof -
  have len: "length testset = 100 * batch_size" using assms(6) by (simp add: batch_size_def)
  from per_class_counts_full[OF assms(1) assms(2) assms(3) assms(4) len assms(7), of rng "model st"]
  obtain m' cc ct where r:
    "per_class_counts K (testloader st testset) rng (model st) = Inr (m', cc, ct)"
    "length ct = 10" "\<forall>k<10. ct ! k = real (count_list (map snd testset) k)"
    unfolding testloader_def by blast
  have "\<forall>l \<in> set (map snd testset). l < 10" using assms(7) by simp
  from sum_list_class_total[OF r(2) r(3) this] have s: "sum_list ct = 10000"
    using assms(6) by simp
  have "ct = replicate 10 1000"
    using r(2) r(3) assms(8) by (intro nth_equalityI) simp_all
  with r(1) s show ?thesis by blast
qed

lemma balanced_shaped: "list_all (\<lambda>s. cifar_shaped (fst s)) balanced_testset"
  by (auto simp: balanced_testset_def list_all_iff cifar_shaped_images)

lemma cifar_trained:
  "\<exists>st. trained toy_kernels cifar_trainset params bufs rngs = Inr st \<and>
     last_epoch (sched st) = 20000 \<and> total_steps (sched st) = 20000 \<and> training (model st) \<and>
     mean_trainset st = [1 / 2, 1 / 2, 1 / 2] \<and> std_trainset st = [1 / 2, 1 / 2, 1 / 2]"
proof -
  have ne: "cifar_trainset \<noteq> []" using cifar_trainset_length by auto
  have nz: "0 \<notin> set (data_std (map fst cifar_trainset))" by (simp add: cifar_statistics)
  have n: "num_epochs * len_loader (length cifar_trainset) batch_size = 20000"
    by (simp add: cifar_trainset_length num_epochs_def len_loader_def batch_size_def)
  from trained_ok[OF ne cifar_trainset_shaped nz, of toy_kernels params bufs rngs]
  show ?thesis by (simp only: n cifar_statistics)
qed

theorem per_class_totals_witness:
  "\<exists>st. trained toy_kernels cifar_trainset [] [] (\<lambda>epoch. keep_all) = Inr st \<and>
     (\<exists>m' cc. per_class_counts toy_kernels (testloader st balanced_testset) keep_all (model st)
        = Inr (m', cc, replicate 10 1000))"
proof -
  from cifar_trained[of "[]" "[]" "\<lambda>epoch. keep_all"] obtain st where st:
    "trained toy_kernels cifar_trainset [] [] (\<lambda>epoch. keep_all) = Inr st"
    "mean_trainset st = [1 / 2, 1 / 2, 1 / 2]" "std_trainset st = [1 / 2, 1 / 2, 1 / 2]"
    by blast
  have "0 \<notin> set (std_trainset st)" "length (mean_trainset st) = 3" "length (std_trainset st) = 3"
    by (simp_all add: st)
  from per_class_totals[OF toy_row_preserving this balanced_shaped balanced_length balanced_labels
      balanced_counts, of keep_all]
  have "\<exists>m' cc. per_class_counts toy_kernels (testloader st balanced_testset) keep_all (model st)
        = Inr (m', cc, replicate 10 1000)" by blast
  with st(1) show ?thesis by blast
qed

subsection \<open>Evaluation in training mode\<close>

lemma toy_forward_take:
  "forward toy_kernels m keep x = forward toy_kernels m keep (map (take 10) x)"
  by (simp add: forward_def conv_block_def toy_kernels_def Let_def comp_def)

lemma take_red_row: "take 10 red_row = [1, 1, 1, 1, 1, 1, 1, 1, 1, 1]"
  by (simp add: red_row_def numeral_eq_Suc)

lemmas toy_forward_defs =
  forward_def toy_kernels_def conv_block_def classifier_def Let_def
  keep_all_def drop_first_def Dropout_def ReLU_def tensor_add_def Flatten_def upt_conv_Cons

lemma toy_forward_keep_all:
  "training m \<Longrightarrow> forward toy_kernels m (keep_draw keep_all i) [red_row]
     = ([[1156 / 49, 1156 / 49, 1156 / 49, 1156 / 49, 1156 / 49,
          1156 / 49, 1156 / 49, 1156 / 49, 1156 / 49, 1156 / 49]], buffers m)"
  by (subst toy_forward_take) (simp add: take_red_row, simp add: toy_forward_defs)

lemma toy_forward_drop_first:
  "training m \<Longrightarrow> forward toy_kernels m (keep_draw drop_first i) [red_row]
     = ([[0, 1156 / 49, 1156 / 49, 1156 / 49, 1156 / 49,
          1156 / 49, 1156 / 49, 1156 / 49, 1156 / 49, 1156 / 49]], buffers m)"
  by (subst toy_forward_take) (simp add: take_red_row, simp add: toy_forward_defs)

lemma toy_forward_eval:
  "\<not> training m \<Longrightarrow> forward toy_kernels m keep [red_row]
     = ([[4, 4, 4, 4, 4, 4, 4, 4, 4, 4]], buffers m)"
  by (subst toy_forward_take) (simp add: take_red_row, simp add: toy_forward_defs)

lemma toy_accuracy_keep_all:
  "training m \<Longrightarrow>
   test_accuracy_cell toy_kernels [Inr ([red_row], [0])] keep_all m = Inr (m, 100)"
  by (simp add: test_accuracy_cell_def accuracy_cell_def call_model_def toy_forward_keep_all
      torch_max_1_def argmax_def accuracy_batch_def torch_eq_def count_correct_def percent_def)

lemma toy_accuracy_drop_first:
  "training m \<Longrightarrow>
   test_accuracy_cell toy_kernels [Inr ([red_row], [0])] drop_first m = Inr (m, 0)"
  by (simp add: test_accuracy_cell_def accuracy_cell_def call_model_def toy_forward_drop_first
      torch_max_1_def argmax_def accuracy_batch_def torch_eq_def count_correct_def percent_def)

lemma forward_eval_deterministic:
  "\<not> training m \<Longrightarrow> forward K m keep1 xb = forward K m keep2 xb"
  by (simp add: forward_def classifier_def Dropout_def Let_def)


lemma red_testloader:
  "mean_trainset st = [1 / 2, 1 / 2, 1 / 2] \<Longrightarrow> std_trainset st = [1 / 2, 1 / 2, 1 / 2] \<Longrightarrow>
   testloader st red_testset = [Inr ([red_row], [0])]"
  by (simp add: testloader_def red_pipeline)

lemma cell14_keep_all:
  assumes "mean_trainset st = [1 / 2, 1 / 2, 1 / 2]" "std_trainset st = [1 / 2, 1 / 2, 1 / 2]"
    "training (model st)"
  shows "cell14 toy_kernels red_testset keep_all st = Inr (st, 100)"
  by (simp add: cell14_def red_testloader[OF assms(1,2)] toy_accuracy_keep_all[OF assms(3)])

lemma cell14_drop_first:
  assumes "mean_trainset st = [1 / 2, 1 / 2, 1 / 2]" "std_trainset st = [1 / 2, 1 / 2, 1 / 2]"
    "training (model st)"
  shows "cell14 toy_kernels red_testset drop_first st = Inr (st, 0)"
  by (simp add: cell14_def red_testloader[OF assms(1,2)] toy_accuracy_drop_first[OF assms(3)])

text \<open>
  Claim C1, at a run of the notebook on a train split of 25,000 black and 25,000 white
  images (deviation one half in every channel) and a test split of one red image. The
  module that leaves the training loop still has \<open>training\<close> set, and the evaluation
  cells do not clear it. Two runs of cell 14 over \<open>testloader\<close>, unshuffled and
  unaugmented, with the same parameters, report 100 and 0: the second run's draws zero
  an activation at the last dropout layer.
\<close>

theorem evaluation_twice_differs:
  "\<exists>st st1 st2. trained toy_kernels cifar_trainset [] [] (\<lambda>epoch. keep_all) = Inr st \<and>
     cell14 toy_kernels red_testset keep_all st = Inr (st1, 100) \<and>
     parameters (model st1) = parameters (model st) \<and>
     testloader st1 red_testset = testloader st red_testset \<and>
     cell14 toy_kernels red_testset drop_first st1 = Inr (st2, 0)"
proof -
  from cifar_trained[of "[]" "[]" "\<lambda>epoch. keep_all"]
  obtain st where st: "trained toy_kernels cifar_trainset [] [] (\<lambda>epoch. keep_all) = Inr st"
    "training (model st)"
    "mean_trainset st = [1 / 2, 1 / 2, 1 / 2]" "std_trainset st = [1 / 2, 1 / 2, 1 / 2]"
    by blast
  have "cell14 toy_kernels red_testset keep_all st = Inr (st, 100)"
    using st(3,4,2) by (rule cell14_keep_all)
  moreover have "cell14 toy_kernels red_testset drop_first st = Inr (st, 0)"
    using st(3,4,2) by (rule cell14_drop_first)
  ultimately show ?thesis using st(1) by blast
qed

text \<open>
  Claim C2, at the same run. The module that cell 14 calls has \<open>training\<close> set, so on
  the batch that \<open>testloader\<close> delivers its dropout layers rescale the activations
  and, with these draws, zero one of them; with the flag cleared, as \<open>model.eval()\<close>
  would, the same call with the same draws passes them through.
\<close>

theorem evaluation_in_training_mode:
  "\<exists>st. trained toy_kernels cifar_trainset [] [] (\<lambda>epoch. keep_all) = Inr st \<and>
     training (model st) \<and>
     testloader st red_testset = [Inr ([red_row], [0])] \<and>
     fst (call_model toy_kernels (model st) (keep_draw drop_first 0) [red_row])
       = [[0, 1156 / 49, 1156 / 49, 1156 / 49, 1156 / 49,
           1156 / 49, 1156 / 49, 1156 / 49, 1156 / 49, 1156 / 49]] \<and>
     fst (call_model toy_kernels ((model st)\<lparr>training := False\<rparr>) (keep_draw drop_first 0)
            [red_row]) = [[4, 4, 4, 4, 4, 4, 4, 4, 4, 4]]"
proof -
  from cifar_trained[of "[]" "[]" "\<lambda>epoch. keep_all"]
  obtain st where st: "trained toy_kernels cifar_trainset [] [] (\<lambda>epoch. keep_all) = Inr st"
    "training (model st)"
    "mean_trainset st = [1 / 2, 1 / 2, 1 / 2]" "std_trainset st = [1 / 2, 1 / 2, 1 / 2]"
    by blast
  have "testloader st red_testset = [Inr ([red_row], [0])]"
    using st(3,4) by (rule red_testloader)
  then show ?thesis
    using st(1,2) by (auto simp: call_model_def toy_forward_drop_first toy_forward_eval)
qed

subsection \<open>Ragged batches\<close>

lemma per_class_batch_ragged:
  assumes "length labels < batch_size" "1 < length labels" "length predicted = length labels"
    "\<forall>l \<in> set labels. l < 10" "length cc = 10" "length ct = 10"
  shows "per_class_batch predicted labels (cc, ct) = Inl IndexError"
proof -
  have eq: "torch_eq predicted labels = Inr (map2 (=) predicted labels)"
    using assms by (simp add: torch_eq_def)
  have mem: "length labels \<in> set [0..<batch_size]" using assms(1) by simp
  have "per_class_inner labels (map2 (=) predicted labels) [0..<batch_size] (cc, ct) = Inl IndexError"
    using assms by (intro per_class_inner_short[OF mem]) simp_all
  with eq show ?thesis by (simp add: per_class_batch_def)
qed

lemma accuracy_batch_any:
  "length predicted = length labels \<Longrightarrow>
   accuracy_batch predicted labels (correct, n) =
     Inr (correct + count_correct (map2 (=) predicted labels), n + length labels)"
  by (simp add: accuracy_batch_def torch_eq_def)

text \<open>
  Claim C3, at a ragged batch. On a final batch of 50 samples, as a split of 10,050
  samples gives, the inner loop of the per-class cell still runs \<open>i\<close> up to
  \<open>batch_size\<close> and \<open>labels[50]\<close> raises, whereas the overall-accuracy cells, which
  read the batch's own size, count its 50 samples.
\<close>

theorem per_class_ragged_batch_raises:
  "per_class_batch (replicate 50 3) (replicate 50 3) (replicate 10 0, replicate 10 0)
     = Inl IndexError \<and>
   accuracy_batch (replicate 50 3) (replicate 50 3) (0, 0) = Inr (50, 50)"
proof
  show "per_class_batch (replicate 50 3) (replicate 50 3) (replicate 10 0, replicate 10 0)
     = Inl IndexError"
    by (rule per_class_batch_ragged) (simp_all add: batch_size_def)
  have "count_correct (map2 (=) (replicate 50 (3::nat)) (replicate 50 3)) = 50"
    by (simp add: count_correct_def zip_replicate)
  then show "accuracy_batch (replicate 50 3) (replicate 50 3) (0, 0) = Inr (50, 50)"
    by (simp add: accuracy_batch_any)
qed

subsection \<open>Gradient clipping\<close>

lemma clamp_range: "0 \<le> c \<Longrightarrow> - c \<le> clamp (- c) c v \<and> clamp (- c) c v \<le> c"
  by (auto simp: clamp_def)

lemma before_update_grad:
  "grad (before_update K m keep data) =
     Some (map (clamp (- grad_clip) grad_clip) (autograd K m keep (fst data) (snd data)))"
  by (simp add: before_update_def Let_def grad_clip_def clip_grad_value_def backward_def
      zero_grad_def call_model_def)

text \<open>
  Claim C4. In every iteration of the training loop the module handed to
  \<open>optimizer.step()\<close> has been through the backward pass and through
  \<open>clip_grad_value_\<close> (the guard \<open>if grad_clip\<close> holds, as \<open>grad_clip\<close> is 0.1): its
  gradient is the gradient of the loss with every component above 0.1 replaced by 0.1,
  every component below -0.1 replaced by -0.1 and the others unchanged, so each
  component lies between -0.1 and 0.1. The module after the iteration is the one the
  optimizer computes from that module.
\<close>

theorem gradient_clipped_before_update:
  "grad (before_update K (model st) keep data)
     = Some (map (\<lambda>v. min (max v (- 0.1)) 0.1)
               (autograd K (model st) keep (fst data) (snd data))) \<and>
   (\<exists>g. grad (before_update K (model st) keep data) = Some g \<and>
        (\<forall>v \<in> set g. - 0.1 \<le> v \<and> v \<le> 0.1)) \<and>
   (\<forall>st'. train_step K st keep data = Inr st' \<longrightarrow>
        model st' = fst (SGD_step (optim st) (before_update K (model st) keep data)))"
proof -
  have g: "grad (before_update K (model st) keep data)
     = Some (map (\<lambda>v. min (max v (- 0.1)) 0.1)
               (autograd K (model st) keep (fst data) (snd data)))"
    by (simp add: before_update_grad grad_clip_def clamp_def)
  have "\<forall>v \<in> set (map (\<lambda>v. min (max v (- 0.1)) (0.1::real))
               (autograd K (model st) keep (fst data) (snd data))). - 0.1 \<le> v \<and> v \<le> 0.1"
    by auto
  with g have r: "\<exists>g. grad (before_update K (model st) keep data) = Some g \<and>
        (\<forall>v \<in> set g. - 0.1 \<le> v \<and> v \<le> 0.1)" by blast
  have "\<forall>st'. train_step K st keep data = Inr st' \<longrightarrow>
        model st' = fst (SGD_step (optim st) (before_update K (model st) keep data))"
    by (auto simp: train_step_def Let_def split: sum.splits)
  with g r show ?thesis by blast
qed

lemma clip_autograd:
  "autograd toy_kernels (model clip_state) keep x labels = [5, - 5, 1 / 20]"
  by (simp add: toy_kernels_def clip_state_def toy_state_def ResNet9_def)

lemma clip_SGD_step:
  assumes "grad m = Some [1 / 10, - (1 / 10), 1 / 20]" "parameters m = [1, - 1, 1 / 100]"
  shows "parameters (fst (SGD_step SGD m)) = [0.998995, - 0.998995, 0.00949995]"
  unfolding SGD_step_def assms by (simp add: SGD_def Let_def)

theorem gradient_clipped_before_update_witness:
  "autograd toy_kernels (model clip_state) (keep_draw keep_all 0) [red_row] [0]
     = [5, - 5, 1 / 20] \<and>
   grad (before_update toy_kernels (model clip_state) (keep_draw keep_all 0) ([red_row], [0]))
     = Some [1 / 10, - (1 / 10), 1 / 20] \<and>
   (\<exists>st'. train_step toy_kernels clip_state (keep_draw keep_all 0) ([red_row], [0]) = Inr st' \<and>
      parameters (model st') = [0.998995, - 0.998995, 0.00949995])"
proof -
  let ?data = "([red_row], [0::nat])"
  let ?keep = "keep_draw keep_all 0"
  note c = gradient_clipped_before_update[of toy_kernels clip_state ?keep ?data]
  from c have g: "grad (before_update toy_kernels (model clip_state) ?keep ?data)
      = Some [1 / 10, - (1 / 10), 1 / 20]"
    by (simp add: clip_autograd)
  have p: "parameters (before_update toy_kernels (model clip_state) ?keep ?data)
      = [1, - 1, 1 / 100]"
    by (simp add: before_update_frame clip_state_def toy_state_def ResNet9_def)
  have "last_epoch (sched clip_state) < total_steps (sched clip_state)"
    by (simp add: clip_state_def toy_state_def)
  from train_step_ok[OF this, of toy_kernels ?keep ?data]
  obtain st' where s: "train_step toy_kernels clip_state ?keep ?data = Inr st'"
    by blast
  with c have "model st' = fst (SGD_step (optim clip_state)
      (before_update toy_kernels (model clip_state) ?keep ?data))" by blast
  moreover have "optim clip_state = SGD" by (simp add: clip_state_def toy_state_def)
  ultimately have "parameters (model st') = [0.998995, - 0.998995, 0.00949995]"
    using clip_SGD_step[OF g p] by simp
  with s g show ?thesis by (simp add: clip_autograd)
qed

subsection \<open>Scheduler steps\<close>



subsection \<open>Parameters are written by the optimizer only\<close>

lemma accuracy_loop_frame:
  "accuracy_loop K kd i loader m acc = Inr (m', acc') \<Longrightarrow>
     parameters m' = parameters m \<and> training m' = training m \<and> grad m' = grad m"
proof (induction K kd i loader m acc rule: accuracy_loop.induct)
  case (1 K kd i m acc)
  then show ?case by simp
next
  case (2 K kd i e rest m acc)
  then show ?case by simp
next
  case (3 K kd i data rest m acc)
  then show ?case
    by (auto simp: Let_def call_model_frame split: sum.splits)
qed

lemma per_class_loop_frame:
  "per_class_loop K kd i loader m acc = Inr (m', acc') \<Longrightarrow>
     parameters m' = parameters m \<and> training m' = training m \<and> grad m' = grad m"
proof (induction K kd i loader m acc rule: per_class_loop.induct)
  case (1 K kd i m acc)
  then show ?case by simp
next
  case (2 K kd i e rest m acc)
  then show ?case by simp
next
  case (3 K kd i data rest m acc)
  then show ?case
    by (auto simp: Let_def call_model_frame split: sum.splits)
qed

lemma accuracy_cell_frame:
  "accuracy_cell K kd loader m = Inr (m', a) \<Longrightarrow> parameters m' = parameters m"
  by (auto simp: accuracy_cell_def split: sum.splits prod.splits dest: accuracy_loop_frame)

lemma per_class_cell_frame:
  "per_class_cell K loader rng m = Inr (m', ps) \<Longrightarrow> parameters m' = parameters m"
  by (auto simp: per_class_cell_def per_class_counts_def split: sum.splits prod.splits
      dest: per_class_loop_frame)

text \<open>
  Claim C9. The three evaluation cells return a module with the parameters they were
  given. In a training iteration the forward pass, \<open>zero_grad\<close>, the backward pass and
  the clipping leave the parameters as they are, and the parameters after the iteration
  are the ones \<open>optimizer.step()\<close> produces; the scheduler does not touch the module.
\<close>

theorem parameters_frame:
  "(\<forall>m' a. train_accuracy_cell K trl rng m = Inr (m', a) \<longrightarrow> parameters m' = parameters m) \<and>
   (\<forall>m' a. test_accuracy_cell K tel rng m = Inr (m', a) \<longrightarrow> parameters m' = parameters m) \<and>
   (\<forall>m' ps. per_class_cell K tel rng m = Inr (m', ps) \<longrightarrow> parameters m' = parameters m) \<and>
   parameters (before_update K m keep data) = parameters m \<and>
   (\<forall>st'. train_step K st keep data = Inr st' \<longrightarrow>
      parameters (model st') =
        parameters (fst (SGD_step (optim st) (before_update K (model st) keep data))))"
  using accuracy_cell_frame per_class_cell_frame
  by (auto simp: train_accuracy_cell_def test_accuracy_cell_def before_update_frame
      train_step_def Let_def split: sum.splits)

lemma toy_SGD_step:
  "parameters (fst (SGD_step (optim toy_state)
      (before_update toy_kernels (model toy_state) (keep_draw keep_all 0) ([red_row], [0]))))
   = [0.998995, 1.99899]"
proof -
  have p: "parameters (model toy_state) = [1, 2]" by (simp add: toy_state_def ResNet9_def)
  have o: "optim toy_state = SGD" by (simp add: toy_state_def)
  have g: "grad (before_update toy_kernels (model toy_state) (keep_draw keep_all 0)
      ([red_row], [0])) = Some [1 / 10, 1 / 10]"
    by (simp add: before_update_grad grad_clip_def clamp_def toy_kernels_def p)
  show ?thesis
    unfolding SGD_step_def g before_update_frame p o
    by (simp add: SGD_def Let_def)
qed

theorem parameters_frame_witness:
  "(\<exists>m' a. test_accuracy_cell toy_kernels (testloader toy_state red_testset) keep_all
       (ResNet9 [1, 2] []) = Inr (m', a) \<and> parameters m' = [1, 2]) \<and>
   (\<exists>st'. train_step toy_kernels toy_state (keep_draw keep_all 0) ([red_row], [0]) = Inr st' \<and>
       parameters (model st') = [0.998995, 1.99899])"
proof -
  let ?m = "ResNet9 [1, 2] []"
  let ?data = "([red_row], [0::nat])"
  have l: "testloader toy_state red_testset = [Inr ?data]"
    by (rule red_testloader) (simp_all add: toy_state_def)
  have e: "test_accuracy_cell toy_kernels [Inr ?data] keep_all ?m = Inr (?m, 100)"
    by (rule toy_accuracy_keep_all) (simp add: ResNet9_def)
  have "last_epoch (sched toy_state) < total_steps (sched toy_state)"
    by (simp add: toy_state_def)
  from train_step_ok[OF this, of toy_kernels "keep_draw keep_all 0" ?data]
  obtain st' where s: "train_step toy_kernels toy_state (keep_draw keep_all 0) ?data = Inr st'"
    by blast
  note f = parameters_frame[of toy_kernels "\<lambda>rng. []" keep_all ?m "[Inr ?data]"
      "keep_draw keep_all 0" ?data toy_state]
  from f e have "parameters ?m = [1, 2]" by (simp add: ResNet9_def)
  moreover from f s toy_SGD_step have "parameters (model st') = [0.998995, 1.99899]"
    by simp
  ultimately show ?thesis using e s by (simp add: l)
qed

subsection \<open>The learning-rate schedule\<close>

lemma schedule_total: "num_epochs * len_loader 50000 batch_size = 20000"
  by (simp add: num_epochs_def len_loader_def batch_size_def)

lemma schedule_rise:
  "s \<le> 5999 \<Longrightarrow> schedule s = 0.1 - 0.048 * (cos (pi * (real s / 5999)) + 1)"
  by (simp add: schedule_def schedule_total get_lr_def annealing_cos_def Let_def
      max_lr_def initial_lr_def)

lemma schedule_decay:
  "5999 < s \<Longrightarrow>
   schedule s = 4 / 10 ^ 7 + (0.1 - 4 / 10 ^ 7) / 2 * (cos (pi * ((real s - 5999) / 14000)) + 1)"
  by (simp add: schedule_def schedule_total get_lr_def annealing_cos_def Let_def
      max_lr_def initial_lr_def min_lr_def)

lemma cos_pi_frac_mono:
  assumes "a < b" "b \<le> d" "0 < d"
  shows "cos (pi * (real b / d)) < cos (pi * (real a / d))"
proof (rule cos_monotone_0_pi)
  show "0 \<le> pi * (real a / d)" using assms by simp
  show "pi * (real a / d) < pi * (real b / d)"
    using assms by (simp add: divide_strict_right_mono)
  have "real b / d \<le> 1" using assms by simp
  then have "pi * (real b / d) \<le> pi * 1" by (intro mult_left_mono) simp_all
  then show "pi * (real b / d) \<le> pi" by simp
qed

lemma schedule_rises: "s < 5999 \<Longrightarrow> schedule s < schedule (Suc s)"
proof -
  assume s: "s < 5999"
  have "cos (pi * (real (Suc s) / 5999)) < cos (pi * (real s / 5999))"
    using cos_pi_frac_mono[of s "Suc s" 5999] s by simp
  then show ?thesis using s by (simp add: schedule_rise)
qed

lemma schedule_peak: "schedule 5999 = 0.1"
  by (simp add: schedule_rise)

lemma schedule_start: "schedule 0 = 0.004"
  by (simp add: schedule_rise)

lemma schedule_end: "schedule 19999 = 4 / 10 ^ 7"
  by (simp add: schedule_decay)

lemma anneal_below:
  fixes lo hi c :: real
  assumes "lo < hi" "c < 1"
  shows "lo + (hi - lo) / 2 * (c + 1) < hi"
proof -
  have "(hi - lo) / 2 * (c + 1) < (hi - lo) / 2 * 2"
    using assms by (intro mult_strict_left_mono) simp_all
  then show ?thesis by simp
qed

lemma schedule_decays:
  assumes "5999 \<le> s" "s < 19999"
  shows "schedule (Suc s) < schedule s"
proof (cases "s = 5999")
  case True
  have "cos (pi / 14000) < 1"
    using cos_pi_frac_mono[of 0 "Suc 0" 14000] by simp
  then have "4 / 10 ^ 7 + (0.1 - 4 / 10 ^ 7) / 2 * (cos (pi / 14000) + 1) < 0.1"
    by (intro anneal_below) simp_all
  moreover have "schedule (Suc s) =
      4 / 10 ^ 7 + (0.1 - 4 / 10 ^ 7) / 2 * (cos (pi / 14000) + 1)"
    using True by (simp add: schedule_decay)
  ultimately show ?thesis using True by (simp only: schedule_peak)
next
  case False
  then have s: "5999 < s" using assms by simp
  have eq: "real (Suc s) - 5999 = real (Suc s - 5999)" "real s - 5999 = real (s - 5999)"
    using s by simp_all
  have "cos (pi * (real (Suc s - 5999) / 14000)) < cos (pi * (real (s - 5999) / 14000))"
    using s assms cos_pi_frac_mono[of "s - 5999" "Suc s - 5999" 14000] by simp
  then show ?thesis
    using s by (simp only: schedule_decay[OF s] schedule_decay[of "Suc s"] eq) simp
qed

lemma one_minus_cos_le: "1 - cos t \<le> t\<^sup>2 / 2" for t :: real
proof -
  have "cos t = cos (2 * (t / 2))" by simp
  also have "\<dots> = 1 - 2 * (sin (t / 2))\<^sup>2" by (rule cos_double_sin)
  finally have "1 - cos t = 2 * (sin (t / 2))\<^sup>2" by simp
  moreover have "(sin (t / 2))\<^sup>2 \<le> (t / 2)\<^sup>2"
    using abs_sin_x_le_abs_x[of "t / 2"] by (metis abs_le_square_iff)
  ultimately show ?thesis by (simp add: power_divide)
qed

lemma schedule_after_last_step: "4 / 10 ^ 7 \<le> schedule 20000 \<and> schedule 20000 < 5 / 10 ^ 7"
proof -
  have "pi * (14001 / 14000) = pi / 14000 + pi" by (simp add: field_simps)
  then have "cos (pi * (14001 / 14000)) = cos (pi / 14000 + pi)" by (rule arg_cong)
  then have c: "cos (pi * (14001 / 14000)) = - cos (pi / 14000)"
    by (simp only: cos_periodic_pi)
  have v: "schedule 20000 = 4 / 10 ^ 7 + (0.1 - 4 / 10 ^ 7) / 2 * (1 - cos (pi / 14000))"
    using c by (simp add: schedule_decay)
  have "1 - cos (pi / 14000) \<le> (pi / 14000)\<^sup>2 / 2" by (rule one_minus_cos_le)
  also have "\<dots> \<le> (4 / 14000)\<^sup>2 / 2"
    using pi_less_4 pi_gt_zero by (simp add: power_mono divide_right_mono)
  finally have ub: "1 - cos (pi / 14000) \<le> (4 / 14000)\<^sup>2 / 2" .
  have lb: "0 \<le> 1 - cos (pi / 14000)" by simp
  have up: "(0.1 - 4 / 10 ^ 7) / 2 * (1 - cos (pi / 14000))
      \<le> (0.1 - 4 / 10 ^ 7) / 2 * ((4 / 14000)\<^sup>2 / 2)"
    using ub by (intro mult_left_mono) simp_all
  have num: "4 / 10 ^ 7 + (0.1 - 4 / 10 ^ 7) / 2 * ((4 / 14000)\<^sup>2 / 2) < (5 / 10 ^ 7 :: real)"
    by (simp add: power2_eq_square)
  have low: "0 \<le> (0.1 - 4 / 10 ^ 7) / 2 * (1 - cos (pi / 14000))"
    using lb by (intro mult_nonneg_nonneg) simp_all
  have "schedule 20000 < 5 / 10 ^ 7"
    unfolding v using up num by (rule_tac le_less_trans[of _ "4 / 10 ^ 7 + (0.1 - 4 / 10 ^ 7) / 2 * ((4 / 14000)\<^sup>2 / 2)"]) simp_all
  moreover have "4 / 10 ^ 7 \<le> schedule 20000"
    unfolding v using low by linarith
  ultimately show ?thesis by simp
qed


lemma initial_state_lr:
  assumes "length trainset = 50000" "initial_state trainset params bufs = Inr st0"
  shows "lr (optim st0) = schedule 0 \<and> total_steps (sched st0) = 20000 \<and> last_epoch (sched st0) = 0"
proof -
  have T: "num_epochs * len_loader (length trainset) batch_size = 20000"
    using assms(1) schedule_total by simp
  show ?thesis
    using assms(2) unfolding initial_state_def OneCycleLR_def Let_def T
    by (auto simp: set_rates_lr schedule_def schedule_total)
qed

lemma train_step_lr:
  assumes "total_steps (sched st) = 20000" "train_step K st keep data = Inr st'"
  shows "lr (optim st') = schedule (last_epoch (sched st'))"
  using assms
  by (auto simp: train_step_def scheduler_step_def Let_def set_rates_lr schedule_def
      schedule_total split: if_splits)

text \<open>
  Claim C6. Over the run's 20,000 steps the learning rate starts at 0.004, the lowest
  value of its rise, climbs strictly at every step up to step 5,999 (30 per cent of the
  steps, less one), where it is the peak 0.1, and from there falls strictly at every
  step down to 4e-7 at step 19,999, the last step at which an update is made. The value
  the last call of \<open>scheduler.step()\<close> leaves behind, at index 20,000, is below 5e-7. The
  optimizer holds \<open>schedule 0\<close> after construction and \<open>schedule k\<close> after the \<open>k\<close>-th
  iteration.
\<close>

theorem one_cycle_schedule:
  "schedule 0 = 0.004 \<and> schedule 5999 = 0.1 \<and> schedule 19999 = 4 / 10 ^ 7 \<and>
   schedule 20000 < 5 / 10 ^ 7 \<and>
   (\<forall>s<5999. schedule s < schedule (Suc s)) \<and>
   (\<forall>s. 5999 \<le> s \<and> s < 19999 \<longrightarrow> schedule (Suc s) < schedule s) \<and>
   (\<forall>trainset params bufs st0.
      length trainset = 50000 \<and> initial_state trainset params bufs = Inr st0 \<longrightarrow>
      lr (optim st0) = schedule 0 \<and> total_steps (sched st0) = 20000) \<and>
   (\<forall>K st keep data st'.
      total_steps (sched st) = 20000 \<and> train_step K st keep data = Inr st' \<longrightarrow>
      lr (optim st') = schedule (last_epoch (sched st')))"
  using schedule_start schedule_peak schedule_end schedule_after_last_step schedule_rises
    schedule_decays initial_state_lr train_step_lr
  by blast

theorem one_cycle_schedule_witness:
  "schedule 0 < schedule (Suc 0) \<and> schedule (Suc 5999) < schedule 5999 \<and>
   (\<exists>st0. initial_state cifar_trainset [] [] = Inr st0 \<and> lr (optim st0) = 0.004)"
proof -
  let ?st0 = "\<lparr>mean_trainset = data_mean (map fst cifar_trainset),
      std_trainset = data_std (map fst cifar_trainset),
      model = ResNet9 [] [], optim = set_rates 20000 0 SGD,
      sched = \<lparr>last_epoch = 0, total_steps = 20000\<rparr>\<rparr>"
  have i: "initial_state cifar_trainset [] [] = Inr ?st0"
    by (simp add: initial_state_def OneCycleLR_def Let_def cifar_trainset_length len_loader_def
        batch_size_def num_epochs_def)
  note l = cifar_trainset_length
  note t = one_cycle_schedule
  from t have "schedule 0 < schedule (Suc 0)" by simp
  moreover have "schedule (Suc 5999) < schedule 5999"
  proof -
    from t have "\<forall>s. 5999 \<le> s \<and> s < 19999 \<longrightarrow> schedule (Suc s) < schedule s"
      by blast
    then have "5999 \<le> (5999::nat) \<and> (5999::nat) < 19999 \<longrightarrow> schedule (Suc 5999) < schedule 5999"
      by (rule spec)
    then show ?thesis by simp
  qed
  moreover from t i l have "lr (optim ?st0) = schedule 0" by blast
  moreover from t have "schedule 0 = 0.004" by simp
  ultimately show ?thesis using i by simp
qed

subsection \<open>The samples of the two loaders\<close>









subsection \<open>The run of the notebook\<close>










subsection \<open>The train-accuracy pass on two images\<close>















subsection \<open>A run that completes has non-zero deviations\<close>




subsection \<open>The train-accuracy pass\<close>





subsection \<open>Normalisation statistics\<close>







end
